theory Spec2Isabelle
  imports Complex_Main "HOL-Library.Multiset"
begin

section \<open>Values of the host language\<close>

text \<open>
  A JavaScript string is a sequence of UTF-16 code units. String literals of the source
  are written \<open>js ''...''\<close>.
\<close>

type_synonym js_string = "nat list"

definition js :: "string \<Rightarrow> js_string" where
  "js s = map of_char s"

text \<open>
  \<open>String.prototype.trim\<close> removes the code units that ECMAScript calls WhiteSpace or
  LineTerminator from both ends: TAB, LF, VT, FF, CR, SPACE, NBSP, U+1680, U+2000 to
  U+200A, U+2028, U+2029, U+202F, U+205F, U+3000 and U+FEFF.
\<close>

definition isWhiteSpace :: "nat \<Rightarrow> bool" where
  "isWhiteSpace c \<longleftrightarrow>
     c = 0x09 \<or> c = 0x0A \<or> c = 0x0B \<or> c = 0x0C \<or> c = 0x0D \<or> c = 0x20 \<or> c = 0xA0 \<or>
     c = 0x1680 \<or> (0x2000 \<le> c \<and> c \<le> 0x200A) \<or> c = 0x2028 \<or> c = 0x2029 \<or>
     c = 0x202F \<or> c = 0x205F \<or> c = 0x3000 \<or> c = 0xFEFF"

definition trim :: "js_string \<Rightarrow> js_string" where
  "trim s = rev (dropWhile isWhiteSpace (rev (dropWhile isWhiteSpace s)))"

text \<open>What a statement can raise. Every \<open>catch\<close> of the source catches all of them.\<close>

datatype js_error = DOMException | SyntaxError | TypeError | Error js_string

text \<open>
  A handler of the component either runs to its end or leaves by an uncaught exception;
  both carry the state as it stands then. A handler that never returns has no
  completion at all (\<open>None\<close> below).
\<close>

datatype 'a completion = Returns 'a | Throws js_error 'a

fun final :: "'a completion \<Rightarrow> 'a" where
  "final (Returns s) = s"
| "final (Throws e s) = s"

text \<open>
  What \<open>console.error\<close> has written: each call with its message and the error it was
  given, in order.
\<close>

type_synonym console = "(js_string \<times> js_error) list"

text \<open>How an awaited promise settles.\<close>

datatype 'a settled = Rejected js_error | Resolved 'a

text \<open>
  \<open>Array.prototype.sort\<close> with a comparison function is a stable sort: \<open>a\<close> stays in
  front of \<open>b\<close> unless \<open>cmp a b > 0\<close>. For a consistent comparison function every stable
  sort returns the same list; it is written here as a stable insertion sort.
\<close>

fun js_insert :: "('a \<Rightarrow> 'a \<Rightarrow> real) \<Rightarrow> 'a \<Rightarrow> 'a list \<Rightarrow> 'a list" where
  "js_insert cmp a [] = [a]"
| "js_insert cmp a (b # bs) = (if cmp a b \<le> 0 then a # b # bs else b # js_insert cmp a bs)"

definition js_sort :: "('a \<Rightarrow> 'a \<Rightarrow> real) \<Rightarrow> 'a list \<Rightarrow> 'a list" where
  "js_sort cmp xs = foldr (js_insert cmp) xs []"

text \<open>
  The values that \<open>JSON.parse\<close> returns and \<open>JSON.stringify\<close> writes: \<open>null\<close>, booleans,
  numbers (the finite ones), strings, arrays, and objects, which list their properties
  in order, each key once. The static types of the source put no constraint on them.
\<close>

datatype json = JNull | JBoolean bool | JNumber real | JString js_string
  | JArray "json list" | JObject "(js_string \<times> json) list"

text \<open>
  The number that \<open>v.score\<close> is, for a value \<open>v\<close> other than \<open>null\<close>; \<open>None\<close> when \<open>v\<close> has no
  such property (as every value that is not an object) or holds something else there.
\<close>

definition score_of :: "json \<Rightarrow> real option" where
  "score_of v =
     (case v of
        JObject props \<Rightarrow>
          (case map_of props (js ''score'') of Some (JNumber n) \<Rightarrow> Some n | _ \<Rightarrow> None)
      | _ \<Rightarrow> None)"

text \<open>
  The elements that the spread \<open>...v\<close> puts into an array literal. Arrays and strings are
  iterable, a string by code points (a surrogate pair is one element); spreading any
  other value raises \<open>TypeError\<close>.
\<close>

fun code_points :: "js_string \<Rightarrow> js_string list" where
  "code_points (c # d # cs) =
     (if 0xD800 \<le> c \<and> c \<le> 0xDBFF \<and> 0xDC00 \<le> d \<and> d \<le> 0xDFFF
      then [c, d] # code_points cs else [c] # code_points (d # cs))"
| "code_points [c] = [[c]]"
| "code_points [] = []"

definition spread :: "json \<Rightarrow> js_error + json list" where
  "spread v =
     (case v of
        JArray elems \<Rightarrow> Inr elems
      | JString s \<Rightarrow> Inr (map JString (code_points s))
      | _ \<Rightarrow> Inl TypeError)"

section \<open>types.ts\<close>

datatype GameStatus = IDLE | PLAYING | PAUSED | GAME_OVER

record Position =
  x :: int
  y :: int

record GeminiAnalysis =
  commentary :: js_string
  grade :: js_string

record LeaderboardEntry =
  name :: js_string
  score :: int
  date :: js_string

text \<open>The objects that the object literals of these two interfaces create.\<close>

definition analysis_object :: "GeminiAnalysis \<Rightarrow> json" where
  "analysis_object a =
     JObject [(js ''commentary'', JString (commentary a)), (js ''grade'', JString (grade a))]"

definition entry_object :: "LeaderboardEntry \<Rightarrow> json" where
  "entry_object e =
     JObject [(js ''name'', JString (name e)),
              (js ''score'', JNumber (of_int (LeaderboardEntry.score e))),
              (js ''date'', JString (date e))]"

section \<open>The browser\<close>

text \<open>
  \<open>localStorage\<close>: the stored items, and whether reading or writing raises (storage
  disabled, quota exceeded).
\<close>

record Storage =
  items :: "js_string \<Rightarrow> js_string option"
  getItem_throws :: bool
  setItem_throws :: bool

definition localStorage_getItem :: "Storage \<Rightarrow> js_string \<Rightarrow> js_error + js_string option" where
  "localStorage_getItem st key =
     (if getItem_throws st then Inl DOMException else Inr (items st key))"

definition localStorage_setItem :: "Storage \<Rightarrow> js_string \<Rightarrow> js_string \<Rightarrow> js_error + Storage" where
  "localStorage_setItem st key v =
     (if setItem_throws st then Inl DOMException
      else Inr (st\<lparr>items := (items st)(key \<mapsto> v)\<rparr>))"

text \<open>The text of a response of the generative service; \<open>None\<close> is \<open>undefined\<close>.\<close>

record GenerateContentResponse =
  response_text :: "js_string option"

text \<open>
  The functions of the platform that the program calls and does not define.
  \<open>Math_random k\<close> is the value of the \<open>k\<close>-th call of \<open>Math.random()\<close>, a number in
  \<open>[0, 1)\<close>. \<open>JSON_parse\<close> raises \<open>SyntaxError\<close> on text that is not JSON and returns the
  value that the text denotes otherwise, whatever its shape. \<open>Array_sort_unscored\<close> is
  what \<open>sort\<close> does with the comparison function of \<open>saveScoreToLeaderboard\<close> on an array
  that this function is not consistent on (see \<open>sort_by_score\<close> below).
  \<open>Date_toISOString\<close> is the value of \<open>new Date().toISOString()\<close>, and
  \<open>generateContent score snakeLength\<close> is how the request built from the two numbers
  settles.
\<close>

record Browser =
  Math_random :: "nat \<Rightarrow> real"
  JSON_parse :: "js_string \<Rightarrow> js_error + json"
  JSON_stringify :: "json \<Rightarrow> js_string"
  Array_sort_unscored :: "json list \<Rightarrow> js_error + json list"
  Date_toISOString :: js_string
  generateContent :: "int \<Rightarrow> int \<Rightarrow> GenerateContentResponse settled"

section \<open>services/storageService.ts\<close>

definition STORAGE_KEY :: js_string where
  "STORAGE_KEY = js ''wpp_snake_leaderboard_v1''"

definition MAX_ENTRIES :: nat where
  "MAX_ENTRIES = 10"

text \<open>
  The body of the \<open>try\<close> of \<open>getLeaderboard\<close>; an empty string is falsy. What \<open>JSON.parse\<close>
  returns is returned as it is: the return type \<open>LeaderboardEntry[]\<close> checks nothing.
\<close>

definition getLeaderboard_try :: "Browser \<Rightarrow> Storage \<Rightarrow> js_error + json" where
  "getLeaderboard_try env st =
     (case localStorage_getItem st STORAGE_KEY of
        Inl e \<Rightarrow> Inl e
      | Inr None \<Rightarrow> Inr (JArray [])
      | Inr (Some data) \<Rightarrow> if data \<noteq> [] then JSON_parse env data else Inr (JArray []))"

text \<open>Returns the value and what the call writes to the console.\<close>

definition getLeaderboard :: "Browser \<Rightarrow> Storage \<Rightarrow> json \<times> console" where
  "getLeaderboard env st =
     (case getLeaderboard_try env st of
        Inl e \<Rightarrow> (JArray [], [(js ''Failed to load leaderboard'', e)])
      | Inr entries \<Rightarrow> (entries, []))"

text \<open>
  \<open>.sort((a, b) => b.score - a.score)\<close>. On an array whose elements all have a number as
  their \<open>score\<close> the comparison function is the difference of two numbers, whose sign
  is exact in floating point: it is consistent, and the result is the stable sort. On an
  array of two or more elements with \<open>null\<close> among them the call raises \<open>TypeError\<close>: a
  sort compares every element, and the function reads a property of both its arguments.
  On every other array the function coerces what it finds or returns \<open>NaN\<close>, and the
  order is the engine's.
\<close>

definition scored :: "json list \<Rightarrow> bool" where
  "scored arr = list_all (\<lambda>v. score_of v \<noteq> None) arr"

definition sort_by_score :: "Browser \<Rightarrow> json list \<Rightarrow> js_error + json list" where
  "sort_by_score env arr =
     (if scored arr then Inr (js_sort (\<lambda>a b. the (score_of b) - the (score_of a)) arr)
      else if JNull \<in> set arr \<and> 2 \<le> length arr then Inl TypeError
      else Array_sort_unscored env arr)"

text \<open>
  Returns the updated list or the exception that leaves the function, the storage after
  the call and what the call writes to the console. The spread and the sort stand before
  the \<open>try\<close>: what they raise leaves the function, and nothing is written then.
\<close>

definition saveScoreToLeaderboard ::
  "Browser \<Rightarrow> js_string \<Rightarrow> int \<Rightarrow> Storage \<Rightarrow> (js_error + json) \<times> Storage \<times> console" where
  "saveScoreToLeaderboard env nm sc st =
     (let (current, logged) = getLeaderboard env st;
          newEntry = \<lparr>name = (if trim nm \<noteq> [] then trim nm else js ''Anonymous Agent''),
                      score = sc,
                      date = Date_toISOString env\<rparr>
      in case spread current of
           Inl e \<Rightarrow> (Inl e, st, logged)
         | Inr elems \<Rightarrow>
             (case sort_by_score env (elems @ [entry_object newEntry]) of
                Inl e \<Rightarrow> (Inl e, st, logged)
              | Inr ranked \<Rightarrow>
                  let updated = JArray (take MAX_ENTRIES ranked)
                  in case localStorage_setItem st STORAGE_KEY (JSON_stringify env updated) of
                       Inl e \<Rightarrow> (Inr updated, st, logged @ [(js ''Failed to save leaderboard'', e)])
                     | Inr st' \<Rightarrow> (Inr updated, st', logged)))"

section \<open>services/geminiService.ts\<close>

definition fallback :: GeminiAnalysis where
  "fallback = \<lparr>commentary = js ''The Snake Deity is silent... (API Error)'', grade = js ''?''\<rparr>"

text \<open>
  The body of the \<open>try\<close> of \<open>getGameOverCommentary\<close>, with its three ways to raise. What
  \<open>JSON.parse\<close> returns is returned as it is: the cast \<open>as GeminiAnalysis\<close> checks nothing.
\<close>

definition getGameOverCommentary_try :: "Browser \<Rightarrow> int \<Rightarrow> int \<Rightarrow> js_error + json" where
  "getGameOverCommentary_try env sc snakeLength =
     (case generateContent env sc snakeLength of
        Rejected e \<Rightarrow> Inl e
      | Resolved response \<Rightarrow>
          (case response_text response of
             Some t \<Rightarrow> if t \<noteq> [] then JSON_parse env t
                       else Inl (Error (js ''No response text''))
           | None \<Rightarrow> Inl (Error (js ''No response text''))))"

text \<open>How the promise of \<open>getGameOverCommentary\<close> settles, and what is written to the console.\<close>

definition getGameOverCommentary :: "Browser \<Rightarrow> int \<Rightarrow> int \<Rightarrow> json settled \<times> console" where
  "getGameOverCommentary env sc snakeLength =
     (case getGameOverCommentary_try env sc snakeLength of
        Inl error \<Rightarrow> (Resolved (analysis_object fallback), [(js ''Gemini API Error:'', error)])
      | Inr analysis \<Rightarrow> (Resolved analysis, []))"

section \<open>App.tsx\<close>

definition BOARD_SIZE :: int where
  "BOARD_SIZE = 15"

definition INITIAL_SNAKE :: "Position list" where
  "INITIAL_SNAKE = [\<lparr>x = 7, y = 7\<rparr>, \<lparr>x = 7, y = 8\<rparr>, \<lparr>x = 7, y = 9\<rparr>]"

definition INITIAL_DIRECTION :: Position where
  "INITIAL_DIRECTION = \<lparr>x = 0, y = -1\<rparr>"

definition BASE_SPEED :: int where
  "BASE_SPEED = 150"

text \<open>
  \<open>getRandomPosition\<close> draws until the cell drawn is off the snake. \<open>n\<close> counts the calls
  of \<open>Math.random()\<close> made so far; the result carries the new count. The loop has no
  bound, so the function is partial: \<open>None\<close> is the loop that never ends.
\<close>

partial_function (option) getRandomPosition ::
  "(nat \<Rightarrow> real) \<Rightarrow> Position list \<Rightarrow> nat \<Rightarrow> (Position \<times> nat) option" where
  "getRandomPosition random snake n =
     (let newPos = \<lparr>x = \<lfloor>random n * of_int BOARD_SIZE\<rfloor>,
                     y = \<lfloor>random (n + 1) * of_int BOARD_SIZE\<rfloor>\<rparr>;
          collision = list_ex (\<lambda>seg. x seg = x newPos \<and> y seg = y newPos) snake
      in if \<not> collision then Some (newPos, n + 2)
         else getRandomPosition random snake (n + 2))"

text \<open>
  The state hooks and refs of the component, and the browser state its handlers touch:
  the storage, the number of random draws made, the messages shown by \<open>alert\<close> and the
  console.
  A handler runs on the state of the last render, and its updates are committed together
  when it ends; \<open>snakeRef.current\<close> is then \<open>snake\<close> again.
\<close>

record App =
  snake :: "Position list"
  food :: Position
  direction :: Position
  status :: GameStatus
  score :: int
  highScore :: int
  playerName :: js_string
  leaderboard :: json
  geminiData :: "json option"
  isLoadingGemini :: bool
  directionRef :: Position
  nextDirectionRef :: Position
  localStorage :: Storage
  randomCalls :: nat
  alerts :: "js_string list"
  console :: console

definition startGame :: "Browser \<Rightarrow> App \<Rightarrow> App completion option" where
  "startGame env s =
     (if trim (playerName s) = [] then
        Some (Returns (s\<lparr>alerts := alerts s @ [js ''Please identify yourself, Agent.'']\<rparr>))
      else
        case localStorage_setItem (localStorage s) (js ''wpp_snake_player_name'') (playerName s) of
          Inl e \<Rightarrow> Some (Throws e s)
        | Inr st' \<Rightarrow>
            (case getRandomPosition (Math_random env) INITIAL_SNAKE (randomCalls s) of
               None \<Rightarrow> None
             | Some (pos, n') \<Rightarrow>
                 Some (Returns (s\<lparr>localStorage := st',
                                  snake := INITIAL_SNAKE,
                                  direction := INITIAL_DIRECTION,
                                  directionRef := INITIAL_DIRECTION,
                                  nextDirectionRef := INITIAL_DIRECTION,
                                  score := 0,
                                  status := PLAYING,
                                  food := pos,
                                  geminiData := None,
                                  randomCalls := n'\<rparr>))))"

definition togglePause :: "App \<Rightarrow> App" where
  "togglePause s =
     s\<lparr>status := (if status s = PLAYING then PAUSED
                  else if status s = PAUSED then PLAYING
                  else status s)\<rparr>"

text \<open>
  \<open>handleGameOver\<close> up to its \<open>await\<close>: the analysis it requests arrives after the tick
  and touches \<open>geminiData\<close> and \<open>isLoadingGemini\<close> only. The function is \<open>async\<close> and the
  tick does not await it: an exception of \<open>saveScoreToLeaderboard\<close> rejects its promise,
  which nothing handles, after the status and the high score have been set, and the
  tick returns.
\<close>

definition handleGameOver :: "Browser \<Rightarrow> App \<Rightarrow> App" where
  "handleGameOver env s =
     (let s1 = s\<lparr>status := GAME_OVER,
                 highScore := (if App.score s > highScore s then App.score s else highScore s)\<rparr>
      in case saveScoreToLeaderboard env (playerName s) (App.score s) (localStorage s) of
           (Inl e, st', logged) \<Rightarrow> s1\<lparr>localStorage := st', console := console s @ logged\<rparr>
         | (Inr newLeaderboard, st', logged) \<Rightarrow>
             s1\<lparr>leaderboard := newLeaderboard,
                isLoadingGemini := True,
                localStorage := st',
                console := console s @ logged\<rparr>)"

definition moveSnake :: "Browser \<Rightarrow> App \<Rightarrow> App completion option" where
  "moveSnake env s =
     (if status s \<noteq> PLAYING then Some (Returns s)
      else
        let prevSnake = snake s;
            s1 = s\<lparr>directionRef := nextDirectionRef s, direction := nextDirectionRef s\<rparr>
        in case prevSnake of
             [] \<Rightarrow> Some (Throws TypeError s1)
           | head # _ \<Rightarrow>
               let newHead = \<lparr>x = x head + x (directionRef s1),
                               y = y head + y (directionRef s1)\<rparr>
               in if x newHead < 0 \<or> x newHead \<ge> BOARD_SIZE \<or>
                     y newHead < 0 \<or> y newHead \<ge> BOARD_SIZE
                  then Some (Returns (handleGameOver env s1))
                  else
                    let isEating = (x newHead = x (food s) \<and> y newHead = y (food s));
                        collisionBody = (if isEating then prevSnake else butlast prevSnake)
                    in if list_ex (\<lambda>seg. x seg = x newHead \<and> y seg = y newHead) collisionBody
                       then Some (Returns (handleGameOver env s1))
                       else
                         let newSnake = newHead # prevSnake
                         in if isEating then
                              (case getRandomPosition (Math_random env) newSnake (randomCalls s1) of
                                 None \<Rightarrow> None
                               | Some (pos, n') \<Rightarrow>
                                   Some (Returns (s1\<lparr>score := App.score s1 + 10,
                                                     food := pos,
                                                     snake := newSnake,
                                                     randomCalls := n'\<rparr>)))
                            else Some (Returns (s1\<lparr>snake := butlast newSnake\<rparr>)))"

text \<open>The interval of the game loop, in milliseconds; \<open>/\<close> is division of numbers.\<close>

definition speed :: "int \<Rightarrow> int" where
  "speed sc = max 50 (BASE_SPEED - \<lfloor>real_of_int sc / 50\<rfloor> * 5)"

definition handleKeyDown :: "js_string \<Rightarrow> App \<Rightarrow> App" where
  "handleKeyDown key s =
     (if key = js ''p'' \<or> key = js ''P'' \<or> key = js ''Escape'' then togglePause s
      else if status s \<noteq> PLAYING then s
      else
        let currentDir = directionRef s
        in if key = js ''ArrowUp'' \<or> key = js ''w'' \<or> key = js ''W'' then
             (if y currentDir \<noteq> 1 then s\<lparr>nextDirectionRef := \<lparr>x = 0, y = -1\<rparr>\<rparr> else s)
           else if key = js ''ArrowDown'' \<or> key = js ''s'' \<or> key = js ''S'' then
             (if y currentDir \<noteq> -1 then s\<lparr>nextDirectionRef := \<lparr>x = 0, y = 1\<rparr>\<rparr> else s)
           else if key = js ''ArrowLeft'' \<or> key = js ''a'' \<or> key = js ''A'' then
             (if x currentDir \<noteq> 1 then s\<lparr>nextDirectionRef := \<lparr>x = -1, y = 0\<rparr>\<rparr> else s)
           else if key = js ''ArrowRight'' \<or> key = js ''d'' \<or> key = js ''D'' then
             (if x currentDir \<noteq> -1 then s\<lparr>nextDirectionRef := \<lparr>x = 1, y = 0\<rparr>\<rparr> else s)
           else s)"

section \<open>Notions used in the statements\<close>

text \<open>The cell that the draws \<open>n\<close> and \<open>n + 1\<close> of the random source make.\<close>

definition drawn :: "(nat \<Rightarrow> real) \<Rightarrow> nat \<Rightarrow> Position" where
  "drawn random n = \<lparr>x = \<lfloor>random n * 15\<rfloor>, y = \<lfloor>random (n + 1) * 15\<rfloor>\<rparr>"

text \<open>The cells of the board: both coordinates in \<open>[0, 15)\<close>.\<close>

definition on_board :: "Position \<Rightarrow> bool" where
  "on_board p \<longleftrightarrow> 0 \<le> x p \<and> x p < BOARD_SIZE \<and> 0 \<le> y p \<and> y p < BOARD_SIZE"

text \<open>The new head of a tick: the head plus the buffered direction, which the tick applies.\<close>

definition new_head :: "App \<Rightarrow> Position" where
  "new_head s = \<lparr>x = x (hd (snake s)) + x (nextDirectionRef s),
                 y = y (hd (snake s)) + y (nextDirectionRef s)\<rparr>"

text \<open>The state after the first step of a tick, which applies the buffered direction.\<close>

definition applied :: "App \<Rightarrow> App" where
  "applied s = s\<lparr>directionRef := nextDirectionRef s, direction := nextDirectionRef s\<rparr>"


definition unit_direction :: "Position \<Rightarrow> bool" where
  "unit_direction d \<longleftrightarrow>
     d = \<lparr>x = 0, y = -1\<rparr> \<or> d = \<lparr>x = 0, y = 1\<rparr> \<or> d = \<lparr>x = -1, y = 0\<rparr> \<or> d = \<lparr>x = 1, y = 0\<rparr>"

definition pause_key :: "js_string \<Rightarrow> bool" where
  "pause_key key \<longleftrightarrow> key = js ''p'' \<or> key = js ''P'' \<or> key = js ''Escape''"

text \<open>The direction a key stands for, as the specification lists them: arrows and WASD.\<close>

definition key_direction :: "js_string \<Rightarrow> Position option" where
  "key_direction key =
     (if key = js ''ArrowUp'' \<or> key = js ''w'' \<or> key = js ''W'' then Some \<lparr>x = 0, y = -1\<rparr>
      else if key = js ''ArrowDown'' \<or> key = js ''s'' \<or> key = js ''S'' then Some \<lparr>x = 0, y = 1\<rparr>
      else if key = js ''ArrowLeft'' \<or> key = js ''a'' \<or> key = js ''A'' then Some \<lparr>x = -1, y = 0\<rparr>
      else if key = js ''ArrowRight'' \<or> key = js ''d'' \<or> key = js ''D'' then Some \<lparr>x = 1, y = 0\<rparr>
      else None)"


text \<open>
  What every reachable state satisfies: both direction refs hold one of the four unit
  directions, and the snake has a head.
\<close>

definition coherent :: "App \<Rightarrow> bool" where
  "coherent s \<longleftrightarrow>
     unit_direction (directionRef s) \<and> unit_direction (nextDirectionRef s) \<and> snake s \<noteq> []"

text \<open>
  The \<open>{commentary, grade}\<close> pair that a value is: an object with a string under each of
  the two keys. \<open>None\<close> for every other value.
\<close>

definition analysis_of :: "json \<Rightarrow> GeminiAnalysis option" where
  "analysis_of v =
     (case v of
        JObject props \<Rightarrow>
          (case (map_of props (js ''commentary''), map_of props (js ''grade'')) of
             (Some (JString c), Some (JString g)) \<Rightarrow> Some \<lparr>commentary = c, grade = g\<rparr>
           | _ \<Rightarrow> None)
      | _ \<Rightarrow> None)"

section \<open>States and browsers for the examples\<close>

text \<open>
  The text that \<open>JSON.stringify\<close> writes for a value whose numbers are whole and whose
  strings need no escape; \<open>0x22\<close> is the double quote.
\<close>

fun digits :: "nat \<Rightarrow> js_string" where
  "digits n = (if n < 10 then [48 + n] else digits (n div 10) @ [48 + n mod 10])"

fun join :: "js_string \<Rightarrow> js_string list \<Rightarrow> js_string" where
  "join sep [] = []"
| "join sep [t] = t"
| "join sep (t # u # ts) = t @ sep @ join sep (u # ts)"

fun json_text :: "json \<Rightarrow> js_string" where
  "json_text JNull = js ''null''"
| "json_text (JBoolean b) = (if b then js ''true'' else js ''false'')"
| "json_text (JNumber n) = (if n < 0 then js ''-'' @ digits (nat \<lfloor>- n\<rfloor>) else digits (nat \<lfloor>n\<rfloor>))"
| "json_text (JString s) = [0x22] @ s @ [0x22]"
| "json_text (JArray elems) = js ''['' @ join (js '','') (map json_text elems) @ js '']''"
| "json_text (JObject props) =
     js ''{'' @ join (js '','')
                 (map (\<lambda>p. [0x22] @ fst p @ [0x22] @ js '':'' @ json_text (snd p)) props) @ js ''}''"

text \<open>
  The values of the examples: an analysis and the same without its commentary, and the
  leaderboards that hold 50, then 90 and 50, then 90, 50 and 30, the 90 without a name.
\<close>

definition hiss :: json where
  "hiss = analysis_object \<lparr>commentary = js ''Hiss.'', grade = js ''B''\<rparr>"

definition grade_only :: json where
  "grade_only = JObject [(js ''grade'', JString (js ''A''))]"

definition entry_on_new_year :: "js_string \<Rightarrow> int \<Rightarrow> json" where
  "entry_on_new_year nm sc =
     entry_object \<lparr>name = nm, score = sc, date = js ''2026-01-01T00:00:00.000Z''\<rparr>"

definition board_50 :: json where
  "board_50 = JArray [entry_on_new_year (js ''Alex'') 50]"

definition board_90_50 :: json where
  "board_90_50 = JArray [entry_on_new_year (js ''Anonymous Agent'') 90,
                         entry_on_new_year (js ''Alex'') 50]"

definition board_90_50_30 :: json where
  "board_90_50_30 = JArray [entry_on_new_year (js ''Anonymous Agent'') 90,
                            entry_on_new_year (js ''Alex'') 50,
                            entry_on_new_year (js ''Alex'') 30]"

text \<open>
  \<open>JSON.parse\<close> on the texts that the examples read: the JSON texts \<open>null\<close>, \<open>{}\<close>, \<open>[]\<close> and
  \<open>7\<close> and the texts of the values above; the other texts of the examples are cut off
  and are not JSON.
\<close>

definition JSON_parse_examples :: "js_string \<Rightarrow> js_error + json" where
  "JSON_parse_examples t =
     (if t = js ''null'' then Inr JNull
      else if t = js ''{}'' then Inr (JObject [])
      else if t = js ''[]'' then Inr (JArray [])
      else if t = js ''7'' then Inr (JNumber 7)
      else if t = json_text hiss then Inr hiss
      else if t = json_text grade_only then Inr grade_only
      else if t = json_text board_50 then Inr board_50
      else if t = json_text board_90_50 then Inr board_90_50
      else if t = json_text board_90_50_30 then Inr board_90_50_30
      else Inl SyntaxError)"

text \<open>The component as it is mounted, on an empty storage that works.\<close>

definition mounted :: App where
  "mounted = \<lparr>snake = INITIAL_SNAKE, food = \<lparr>x = 7, y = 4\<rparr>, direction = INITIAL_DIRECTION,
     status = IDLE, score = 0, highScore = 0, playerName = [], leaderboard = JArray [],
     geminiData = None, isLoadingGemini = False,
     directionRef = INITIAL_DIRECTION, nextDirectionRef = INITIAL_DIRECTION,
     localStorage = \<lparr>items = Map.empty, getItem_throws = False, setItem_throws = False\<rparr>,
     randomCalls = 0, alerts = [], console = []\<rparr>"

text \<open>
  A browser whose random source always returns a half, so that every cell drawn is
  \<open>(7, 7)\<close>, whose generative call is rejected, and whose sort leaves an array without
  scores as it is.
\<close>

definition halves :: Browser where
  "halves = \<lparr>Math_random = (\<lambda>k. 1 / 2),
     JSON_parse = JSON_parse_examples,
     JSON_stringify = json_text,
     Array_sort_unscored = (\<lambda>arr. Inr arr),
     Date_toISOString = js ''2026-01-01T00:00:00.000Z'',
     generateContent = (\<lambda>sc len. Rejected (Error (js ''offline'')))\<rparr>"

text \<open>
  The board filled but for the corner \<open>(0, 0)\<close>: the cells row by row, alternating
  direction, and a snake that lies on all of them except the first, its head at \<open>(1, 0)\<close>
  moving left, the food in the corner.
\<close>

definition serpentine_cell :: "int \<Rightarrow> Position" where
  "serpentine_cell i = \<lparr>x = (if even (i div 15) then i mod 15 else 14 - i mod 15), y = i div 15\<rparr>"

definition serpentine :: "Position list" where
  "serpentine = map serpentine_cell [0..224]"

text \<open>Neighbours on the grid: one step apart along one axis.\<close>

definition adjacent :: "Position \<Rightarrow> Position \<Rightarrow> bool" where
  "adjacent p q \<longleftrightarrow> \<bar>x p - x q\<bar> + \<bar>y p - y q\<bar> = 1"

definition last_bite :: App where
  "last_bite = mounted\<lparr>snake := tl serpentine, food := \<lparr>x = 0, y = 0\<rparr>,
     direction := \<lparr>x = -1, y = 0\<rparr>, directionRef := \<lparr>x = -1, y = 0\<rparr>,
     nextDirectionRef := \<lparr>x = -1, y = 0\<rparr>, status := PLAYING, score := 2210,
     playerName := js ''Alex''\<rparr>"

text \<open>A head at \<open>(0, 3)\<close> about to move left, off the board.\<close>

definition at_left_wall :: App where
  "at_left_wall = mounted\<lparr>snake := [\<lparr>x = 0, y = 3\<rparr>, \<lparr>x = 1, y = 3\<rparr>, \<lparr>x = 2, y = 3\<rparr>],
     direction := \<lparr>x = -1, y = 0\<rparr>, directionRef := \<lparr>x = -1, y = 0\<rparr>,
     nextDirectionRef := \<lparr>x = -1, y = 0\<rparr>, status := PLAYING, playerName := js ''Alex''\<rparr>"

text \<open>
  A snake of five cells coiled so that a turn to the right runs into its fourth cell,
  and one of four cells whose turn to the right enters the cell of its tail. In the
  last state the food lies in that cell.
\<close>

definition coiled5 :: App where
  "coiled5 = mounted\<lparr>snake := [\<lparr>x = 5, y = 5\<rparr>, \<lparr>x = 5, y = 6\<rparr>, \<lparr>x = 6, y = 6\<rparr>,
                                \<lparr>x = 6, y = 5\<rparr>, \<lparr>x = 7, y = 5\<rparr>],
     nextDirectionRef := \<lparr>x = 1, y = 0\<rparr>, status := PLAYING, score := 20,
     playerName := js ''Alex''\<rparr>"

definition coiled4 :: App where
  "coiled4 = mounted\<lparr>snake := [\<lparr>x = 5, y = 5\<rparr>, \<lparr>x = 5, y = 6\<rparr>, \<lparr>x = 6, y = 6\<rparr>,
                                \<lparr>x = 6, y = 5\<rparr>],
     nextDirectionRef := \<lparr>x = 1, y = 0\<rparr>, status := PLAYING, score := 10,
     playerName := js ''Alex''\<rparr>"

definition coiled4_food_on_tail :: App where
  "coiled4_food_on_tail = coiled4\<lparr>food := \<lparr>x = 6, y = 5\<rparr>\<rparr>"

text \<open>The snake of a new game with the food right in front of its head.\<close>

definition before_food :: App where
  "before_food = mounted\<lparr>food := \<lparr>x = 7, y = 6\<rparr>, status := PLAYING, playerName := js ''Alex''\<rparr>"

text \<open>A browser whose random source returns a half on its first two calls and a tenth after.\<close>

definition halves_then_tenths :: Browser where
  "halves_then_tenths = halves\<lparr>Math_random := (\<lambda>k. if k < 2 then 1 / 2 else 1 / 10)\<rparr>"

text \<open>
  Browsers whose generative service answers without text, with a text that is cut off
  after twelve code units, with the text of an analysis, and with the text of an
  analysis that lacks its commentary.
\<close>

definition silent :: Browser where
  "silent = halves\<lparr>generateContent := (\<lambda>sc len. Resolved \<lparr>response_text = None\<rparr>)\<rparr>"

definition garbled :: Browser where
  "garbled = halves\<lparr>generateContent :=
     (\<lambda>sc len. Resolved \<lparr>response_text = Some (take 12 (json_text hiss))\<rparr>)\<rparr>"

definition answering :: Browser where
  "answering = halves\<lparr>generateContent :=
     (\<lambda>sc len. Resolved \<lparr>response_text = Some (json_text hiss)\<rparr>)\<rparr>"

definition half_answering :: Browser where
  "half_answering = halves\<lparr>generateContent :=
     (\<lambda>sc len. Resolved \<lparr>response_text = Some (json_text grade_only)\<rparr>)\<rparr>"



definition holding_object :: Storage where
  "holding_object = \<lparr>items = [STORAGE_KEY \<mapsto> js ''{}''], getItem_throws = False,
     setItem_throws = False\<rparr>"


text \<open>
  The storage after \<open>Alex\<close>, written with a blank on either side, has saved 50; after a
  player who entered blanks only has then saved 90; and after Alex has then saved 30.
\<close>

definition after_50 :: Storage where
  "after_50 =
     fst (snd (saveScoreToLeaderboard halves (js '' Alex '') 50 (localStorage mounted)))"

definition after_50_90 :: Storage where
  "after_50_90 = fst (snd (saveScoreToLeaderboard halves (js ''  '') 90 after_50))"

definition after_50_90_30 :: Storage where
  "after_50_90_30 = fst (snd (saveScoreToLeaderboard halves (js ''Alex'') 30 after_50_90))"

text \<open>
  The component with the name Alex entered, before a game; the same on a storage that
  accepts no write; and the same in a game that has just started.
\<close>

definition alex_idle :: App where
  "alex_idle = mounted\<lparr>playerName := js ''Alex''\<rparr>"

definition alex_idle_full_storage :: App where
  "alex_idle_full_storage =
     alex_idle\<lparr>localStorage := \<lparr>items = Map.empty, getItem_throws = False, setItem_throws = True\<rparr>\<rparr>"


section \<open>The food placement loop\<close>

lemma some_iff_mem:
  "list_ex (\<lambda>seg. x seg = x (p::Position) \<and> y seg = y p) sn \<longleftrightarrow> p \<in> set sn"
proof -
  have "\<And>seg. (x seg = x p \<and> y seg = y p) = (seg = p)" by auto
  then show ?thesis by (simp add: list_ex_iff)
qed

lemma getRandomPosition_unfold:
  "getRandomPosition random sn n =
     (if drawn random n \<notin> set sn then Some (drawn random n, n + 2)
      else getRandomPosition random sn (n + 2))"
  by (subst getRandomPosition.simps) (simp add: Let_def some_iff_mem drawn_def BOARD_SIZE_def)

lemma floor_draw: "0 \<le> (r::real) \<Longrightarrow> r < 1 \<Longrightarrow> 0 \<le> \<lfloor>r * 15\<rfloor> \<and> \<lfloor>r * 15\<rfloor> < 15"
  by (simp add: floor_less_iff)

lemma drawn_on_board:
  "\<forall>k. 0 \<le> random k \<and> random k < 1 \<Longrightarrow> on_board (drawn random n)"
  by (simp add: on_board_def drawn_def BOARD_SIZE_def floor_draw)

text \<open>
  A result of the loop is the first cell drawn that is off the snake. The proof follows
  the iterations of the loop (the induction rule of the partial function).
\<close>

lemma getRandomPosition_result:
  assumes "getRandomPosition random sn n = Some r"
  shows "\<exists>k. r = (drawn random (n + 2 * k), n + 2 * k + 2) \<and> drawn random (n + 2 * k) \<notin> set sn
          \<and> (\<forall>j<k. drawn random (n + 2 * j) \<in> set sn)"
  using assms
proof (induction rule: getRandomPosition.raw_induct [rotated 1, consumes 1])
  case (1 loop random sn n r)
  show ?case
  proof (cases "drawn random n \<in> set sn")
    case False
    with 1(2) have "r = (drawn random n, n + 2)"
      by (simp add: Let_def some_iff_mem drawn_def BOARD_SIZE_def)
    with False show ?thesis by (intro exI [of _ 0]) simp
  next
    case True
    with 1(2) have "loop random sn (n + 2) = Some r"
      by (simp add: Let_def some_iff_mem drawn_def BOARD_SIZE_def)
    from 1(1) [OF this] obtain k where k:
      "r = (drawn random (n + 2 + 2 * k), n + 2 + 2 * k + 2)"
      "drawn random (n + 2 + 2 * k) \<notin> set sn"
      "\<forall>j<k. drawn random (n + 2 + 2 * j) \<in> set sn" by blast
    have "\<forall>j<Suc k. drawn random (n + 2 * j) \<in> set sn"
    proof (intro allI impI)
      fix j assume "j < Suc k"
      show "drawn random (n + 2 * j) \<in> set sn"
      proof (cases j)
        case 0 with True show ?thesis by simp
      next
        case (Suc i)
        with \<open>j < Suc k\<close> k(3) have "drawn random (n + 2 + 2 * i) \<in> set sn" by simp
        with Suc show ?thesis by (simp add: add.commute add.left_commute)
      qed
    qed
    with k(1,2) show ?thesis
      by (intro exI [of _ "Suc k"]) (simp add: add.commute add.left_commute)
  qed
qed

text \<open>Conversely the loop returns at the first free cell drawn: induction on its index.\<close>

lemma getRandomPosition_first_free:
  "drawn random (n + 2 * k) \<notin> set sn \<Longrightarrow> \<forall>j<k. drawn random (n + 2 * j) \<in> set sn \<Longrightarrow>
   getRandomPosition random sn n = Some (drawn random (n + 2 * k), n + 2 * k + 2)"
proof (induction k arbitrary: n)
  case 0
  then show ?case by (subst getRandomPosition_unfold) simp
next
  case (Suc k)
  from Suc.prems(2) have here: "drawn random n \<in> set sn"
    by (metis add_0_right mult_0_right zero_less_Suc)
  have "drawn random (n + 2 + 2 * k) \<notin> set sn"
    using Suc.prems(1) by (simp add: add.commute add.left_commute)
  moreover have "\<forall>j<k. drawn random (n + 2 + 2 * j) \<in> set sn"
  proof (intro allI impI)
    fix j assume "j < k"
    then have "drawn random (n + 2 * Suc j) \<in> set sn" using Suc.prems(2) by blast
    then show "drawn random (n + 2 + 2 * j) \<in> set sn" by (simp add: add.commute add.left_commute)
  qed
  ultimately have "getRandomPosition random sn (n + 2) =
      Some (drawn random (n + 2 + 2 * k), n + 2 + 2 * k + 2)"
    by (rule Suc.IH)
  with here show ?case
    by (subst getRandomPosition_unfold) (simp add: add.commute add.left_commute)
qed

lemma getRandomPosition_returns:
  assumes "\<exists>k. drawn random (n + 2 * k) \<notin> set sn"
  shows "\<exists>p m. getRandomPosition random sn n = Some (p, m) \<and> p \<notin> set sn"
proof -
  define k where "k = (LEAST k. drawn random (n + 2 * k) \<notin> set sn)"
  have free: "drawn random (n + 2 * k) \<notin> set sn"
    unfolding k_def using assms by (rule LeastI_ex)
  have "\<forall>j<k. drawn random (n + 2 * j) \<in> set sn"
    unfolding k_def using not_less_Least by blast
  with free show ?thesis using getRandomPosition_first_free by blast
qed

lemma getRandomPosition_None_iff:
  "getRandomPosition random sn n = None \<longleftrightarrow> (\<forall>k. drawn random (n + 2 * k) \<in> set sn)"
proof
  assume "getRandomPosition random sn n = None"
  then show "\<forall>k. drawn random (n + 2 * k) \<in> set sn"
    using getRandomPosition_returns [of random n sn] by fastforce
next
  assume all: "\<forall>k. drawn random (n + 2 * k) \<in> set sn"
  show "getRandomPosition random sn n = None"
  proof (rule ccontr)
    assume "getRandomPosition random sn n \<noteq> None"
    then obtain r where "getRandomPosition random sn n = Some r" by blast
    from getRandomPosition_result [OF this] all show False by blast
  qed
qed

lemma getRandomPosition_full_board:
  assumes "\<forall>k. 0 \<le> random k \<and> random k < 1" and "\<forall>p. on_board p \<longrightarrow> p \<in> set sn"
  shows "getRandomPosition random sn n = None"
  using assms drawn_on_board [OF assms(1)] by (simp add: getRandomPosition_None_iff)

section \<open>The tick, case by case\<close>

lemma handleGameOver_frame:
  "status (handleGameOver env s) = GAME_OVER" "snake (handleGameOver env s) = snake s"
  "food (handleGameOver env s) = food s" "App.score (handleGameOver env s) = App.score s"
  "directionRef (handleGameOver env s) = directionRef s"
  "nextDirectionRef (handleGameOver env s) = nextDirectionRef s"
  "direction (handleGameOver env s) = direction s"
  by (simp_all add: handleGameOver_def Let_def split: prod.splits sum.splits)

lemma moveSnake_idle: "status s \<noteq> PLAYING \<Longrightarrow> moveSnake env s = Some (Returns s)"
  by (simp add: moveSnake_def)

lemma moveSnake_empty:
  "status s = PLAYING \<Longrightarrow> snake s = [] \<Longrightarrow> moveSnake env s = Some (Throws TypeError (applied s))"
  by (simp add: moveSnake_def applied_def)

lemma moveSnake_playing:
  assumes "status s = PLAYING" "snake s \<noteq> []"
  shows "moveSnake env s =
     (if \<not> on_board (new_head s) then Some (Returns (handleGameOver env (applied s)))
      else if new_head s \<in> set (if new_head s = food s then snake s else butlast (snake s))
      then Some (Returns (handleGameOver env (applied s)))
      else if new_head s = food s then
        (case getRandomPosition (Math_random env) (new_head s # snake s) (randomCalls s) of
           None \<Rightarrow> None
         | Some (pos, n') \<Rightarrow>
             Some (Returns ((applied s)\<lparr>score := App.score s + 10, food := pos,
                                        snake := new_head s # snake s, randomCalls := n'\<rparr>)))
      else Some (Returns ((applied s)\<lparr>snake := new_head s # butlast (snake s)\<rparr>)))"
proof -
  obtain h t where ht: "snake s = h # t" using assms(2) by (cases "snake s") auto
  define nh where "nh = \<lparr>x = x h + x (nextDirectionRef s), y = y h + y (nextDirectionRef s)\<rparr>"
  define s1 where "s1 = s\<lparr>directionRef := nextDirectionRef s, direction := nextDirectionRef s\<rparr>"
  have s1: "directionRef s1 = nextDirectionRef s" "randomCalls s1 = randomCalls s"
    "App.score s1 = App.score s" by (simp_all add: s1_def)
  have nh: "new_head s = nh" by (simp add: new_head_def nh_def ht)
  have A: "(x nh < 0 \<or> x nh \<ge> BOARD_SIZE \<or> y nh < 0 \<or> y nh \<ge> BOARD_SIZE) = (\<not> on_board nh)"
    by (auto simp: on_board_def)
  have B: "(x nh = x (food s) \<and> y nh = y (food s)) = (nh = food s)" by auto
  have C: "\<And>l. list_ex (\<lambda>seg. x seg = x nh \<and> y seg = y nh) l = (nh \<in> set l)"
    by (rule some_iff_mem)
  have D: "butlast (nh # h # t) = nh # butlast (h # t)" by simp
  have "moveSnake env s =
     (if \<not> on_board nh then Some (Returns (handleGameOver env s1))
      else if nh \<in> set (if nh = food s then h # t else butlast (h # t))
      then Some (Returns (handleGameOver env s1))
      else if nh = food s then
        (case getRandomPosition (Math_random env) (nh # h # t) (randomCalls s) of
           None \<Rightarrow> None
         | Some (pos, n') \<Rightarrow>
             Some (Returns (s1\<lparr>score := App.score s + 10, food := pos,
                               snake := nh # h # t, randomCalls := n'\<rparr>)))
      else Some (Returns (s1\<lparr>snake := nh # butlast (h # t)\<rparr>)))"
    unfolding moveSnake_def Let_def ht list.case s1_def [symmetric] s1 nh_def [symmetric] A B C D
    using assms(1) by (simp only: simp_thms if_False if_True if_not_P if_P)
  then show ?thesis unfolding nh ht s1_def applied_def .
qed

lemma moveSnake_wall:
  assumes "status s = PLAYING" "snake s \<noteq> []" "\<not> on_board (new_head s)"
  shows "moveSnake env s = Some (Returns (handleGameOver env (applied s)))"
  using assms by (simp add: moveSnake_playing)

lemma moveSnake_self:
  assumes "status s = PLAYING" "snake s \<noteq> []" "on_board (new_head s)"
    and "new_head s \<in> set (if new_head s = food s then snake s else butlast (snake s))"
  shows "moveSnake env s = Some (Returns (handleGameOver env (applied s)))"
  using assms by (simp add: moveSnake_playing)

lemma moveSnake_eat:
  assumes "status s = PLAYING" "snake s \<noteq> []" "on_board (new_head s)"
    and "new_head s = food s" "new_head s \<notin> set (snake s)"
  shows "moveSnake env s =
     (case getRandomPosition (Math_random env) (new_head s # snake s) (randomCalls s) of
        None \<Rightarrow> None
      | Some (pos, n') \<Rightarrow>
          Some (Returns ((applied s)\<lparr>score := App.score s + 10, food := pos,
                                     snake := new_head s # snake s, randomCalls := n'\<rparr>)))"
  using assms by (simp add: moveSnake_playing)

lemma moveSnake_step:
  assumes "status s = PLAYING" "snake s \<noteq> []" "on_board (new_head s)"
    and "new_head s \<noteq> food s" "new_head s \<notin> set (butlast (snake s))"
  shows "moveSnake env s = Some (Returns ((applied s)\<lparr>snake := new_head s # butlast (snake s)\<rparr>))"
  using assms by (simp add: moveSnake_playing)

lemma moveSnake_length:
  assumes "moveSnake env s = Some r"
  shows "length (snake (final r)) = length (snake s)
         \<or> length (snake (final r)) = length (snake s) + 1"
proof (cases "status s = PLAYING \<and> snake s \<noteq> []")
  case False
  show ?thesis
  proof (cases "status s = PLAYING")
    case True
    with False assms have "r = Throws TypeError (applied s)" by (simp add: moveSnake_empty)
    then show ?thesis by (simp add: applied_def)
  next
    case False
    with assms have "r = Returns s" by (simp add: moveSnake_idle)
    then show ?thesis by simp
  qed
next
  case True
  with assms show ?thesis
    by (auto simp: moveSnake_playing handleGameOver_frame applied_def
             split: if_splits option.splits)
qed

lemma moveSnake_applies_buffer:
  assumes "status s = PLAYING" "moveSnake env s = Some r"
  shows "directionRef (final r) = nextDirectionRef s \<and> direction (final r) = nextDirectionRef s
         \<and> nextDirectionRef (final r) = nextDirectionRef s"
proof (cases "snake s = []")
  case True
  with assms have "r = Throws TypeError (applied s)" by (simp add: moveSnake_empty)
  then show ?thesis by (simp add: applied_def)
next
  case False
  with assms show ?thesis
    by (auto simp: moveSnake_playing handleGameOver_frame applied_def
             split: if_splits option.splits)
qed

section \<open>The board and the snake that fills it\<close>

lemma board_cells: "card {p. on_board p} = 225"
proof -
  have "{p. on_board p} = (\<lambda>(i, j). \<lparr>x = i, y = j\<rparr>) ` ({0..<15} \<times> {0..<15})"
  proof (intro set_eqI iffI)
    fix p assume "p \<in> {p. on_board p}"
    then have "p = (\<lambda>(i, j). \<lparr>x = i, y = j\<rparr>) (x p, y p)" "(x p, y p) \<in> {0..<15} \<times> {0..<15}"
      by (simp_all add: on_board_def BOARD_SIZE_def)
    then show "p \<in> (\<lambda>(i, j). \<lparr>x = i, y = j\<rparr>) ` ({0..<15} \<times> {0..<15})" by (rule image_eqI)
  next
    fix p assume "p \<in> (\<lambda>(i, j). \<lparr>x = i, y = j\<rparr>) ` ({0..<15} \<times> {0..<15})"
    then show "p \<in> {p. on_board p}" by (auto simp: on_board_def BOARD_SIZE_def)
  qed
  moreover have "inj_on (\<lambda>(i, j). \<lparr>x = i, y = j\<rparr>) ({0..<15::int} \<times> {0..<15::int})"
    by (auto simp: inj_on_def)
  ultimately show ?thesis by (simp add: card_image)
qed

lemma upto_0_224: "[0..224] = 0 # 1 # [2..224]"
  by (simp add: upto_rec1)

lemma serpentine_head: "serpentine = \<lparr>x = 0, y = 0\<rparr> # \<lparr>x = 1, y = 0\<rparr> # map serpentine_cell [2..224]"
  by (simp add: serpentine_def upto_0_224 serpentine_cell_def)

lemma serpentine_covers:
  assumes "on_board p"
  shows "p \<in> set serpentine"
proof -
  define i where "i = 15 * y p + (if even (y p) then x p else 14 - x p)"
  from assms have b: "0 \<le> x p" "x p < 15" "0 \<le> y p" "y p < 15"
    by (simp_all add: on_board_def BOARD_SIZE_def)
  define c where "c = (if even (y p) then x p else 14 - x p)"
  have c: "0 \<le> c" "c < 15" using b by (auto simp: c_def)
  have i: "i = 15 * y p + c" by (simp add: i_def c_def)
  have d: "i div 15 = y p" using c by (simp add: i)
  have m: "i mod 15 = c" using c by (simp add: i)
  have "serpentine_cell i = p"
    unfolding serpentine_cell_def d m by (simp add: c_def)
  moreover have "0 \<le> i" "i \<le> 224" using b c by (simp_all add: i)
  ultimately show ?thesis unfolding serpentine_def by force
qed

lemma serpentine_corner_once: "\<lparr>x = 0, y = 0\<rparr> \<notin> set (tl serpentine)"
proof
  assume "\<lparr>x = 0, y = 0\<rparr> \<in> set (tl serpentine)"
  then have "\<lparr>x = 0, y = 0\<rparr> \<in> serpentine_cell ` {1..224}"
    by (simp add: serpentine_def upto_rec1 [of 0 224])
  then obtain i where i: "1 \<le> i" "i \<le> 224" "serpentine_cell i = \<lparr>x = 0, y = 0\<rparr>" by auto
  from i(3) have "i div 15 = 0" by (simp add: serpentine_cell_def)
  with i(3) have "i mod 15 = 0" by (simp add: serpentine_cell_def)
  with \<open>i div 15 = 0\<close> have "i = 0" by presburger
  with i(1) show False by simp
qed

lemma last_bite_facts:
  "status last_bite = PLAYING" "snake last_bite \<noteq> []"
  "new_head last_bite = \<lparr>x = 0, y = 0\<rparr>" "food last_bite = \<lparr>x = 0, y = 0\<rparr>"
  "new_head last_bite # snake last_bite = serpentine"
  "new_head last_bite \<notin> set (snake last_bite)"
  "on_board (new_head last_bite)"
proof -
  have sn: "snake last_bite = \<lparr>x = 1, y = 0\<rparr> # map serpentine_cell [2..224]"
    by (simp add: last_bite_def serpentine_head)
  show "status last_bite = PLAYING" by (simp add: last_bite_def)
  show "snake last_bite \<noteq> []" by (simp add: sn)
  show nh: "new_head last_bite = \<lparr>x = 0, y = 0\<rparr>"
    unfolding new_head_def sn by (simp add: last_bite_def)
  show "food last_bite = \<lparr>x = 0, y = 0\<rparr>" by (simp add: last_bite_def)
  show "new_head last_bite # snake last_bite = serpentine"
    unfolding nh sn by (simp add: serpentine_head)
  show "new_head last_bite \<notin> set (snake last_bite)"
    unfolding nh using serpentine_corner_once by (simp add: last_bite_def)
  show "on_board (new_head last_bite)" unfolding nh by (simp add: on_board_def BOARD_SIZE_def)
qed

text \<open>
  The state \<open>last_bite\<close> is one that play can reach: its snake has 224 distinct cells of
  the board, each next to the one before it, the food is off the snake, and the snake has
  eaten 221 times.
\<close>

lemma serpentine_cell_inj:
  assumes "serpentine_cell i = serpentine_cell j"
  shows "i = j"
proof -
  from assms have "x (serpentine_cell i) = x (serpentine_cell j)"
    "y (serpentine_cell i) = y (serpentine_cell j)" by simp_all
  then have X: "(if even (i div 15) then i mod 15 else 14 - i mod 15) =
                (if even (j div 15) then j mod 15 else 14 - j mod 15)"
    and d: "i div 15 = j div 15"
    unfolding serpentine_cell_def by (simp_all only: Position.select_convs)
  from X have "(if even (j div 15) then i mod 15 else 14 - i mod 15) =
               (if even (j div 15) then j mod 15 else 14 - j mod 15)"
    by (simp only: d)
  then have m: "i mod 15 = j mod 15" by (cases "even (j div 15)") simp_all
  have "i = 15 * (i div 15) + i mod 15" "j = 15 * (j div 15) + j mod 15" by simp_all
  with d m show ?thesis by simp
qed

lemma serpentine_distinct: "distinct serpentine"
proof -
  have "inj_on serpentine_cell (set [0..224])"
    by (rule inj_onI) (rule serpentine_cell_inj)
  moreover have "distinct [0..224]" by (rule distinct_upto)
  ultimately show ?thesis unfolding serpentine_def by (simp only: distinct_map)
qed

lemma serpentine_length: "length serpentine = 225"
  by (simp add: serpentine_def)

lemma serpentine_on_board: "p \<in> set serpentine \<Longrightarrow> on_board p"
proof -
  assume "p \<in> set serpentine"
  then obtain i where i: "0 \<le> i" "i \<le> 224" "p = serpentine_cell i"
    by (auto simp: serpentine_def)
  define r where "r = i div 15"
  define c where "c = i mod 15"
  have r: "0 \<le> r \<and> r < 15" unfolding r_def using i(1,2) by presburger
  have c: "0 \<le> c \<and> c \<le> 14" unfolding c_def by presburger
  have "p = \<lparr>x = (if even r then c else 14 - c), y = r\<rparr>"
    unfolding i(3) serpentine_cell_def r_def c_def ..
  with r c show ?thesis by (simp add: on_board_def BOARD_SIZE_def)
qed

lemma serpentine_adjacent:
  assumes "0 \<le> i" "i < 224"
  shows "adjacent (serpentine_cell i) (serpentine_cell (i + 1))"
proof -
  define r where "r = i div 15"
  define c where "c = i mod 15"
  have c: "0 \<le> c" "c < 15" unfolding c_def by simp_all
  have i: "i = 15 * r + c" unfolding r_def c_def by simp
  have here: "serpentine_cell i = \<lparr>x = (if even r then c else 14 - c), y = r\<rparr>"
    by (simp add: serpentine_cell_def r_def c_def)
  show ?thesis
  proof (cases "c = 14")
    case True
    then have next_row: "i + 1 = 15 * (r + 1) + 0" by (simp add: i)
    have "(i + 1) div 15 = r + 1" using next_row by (rule int_div_pos_eq) simp_all
    moreover have "(i + 1) mod 15 = 0" using next_row by (rule int_mod_pos_eq) simp_all
    ultimately
    have "serpentine_cell (i + 1) = \<lparr>x = (if even (r + 1) then 0 else 14), y = r + 1\<rparr>"
      by (simp add: serpentine_cell_def)
    with here True show ?thesis by (cases "even r") (simp_all add: adjacent_def)
  next
    case False
    with c have same_row: "i + 1 = 15 * r + (c + 1)" and c1: "0 \<le> c + 1" "c + 1 < 15"
      by (simp_all add: i)
    have "(i + 1) div 15 = r" using same_row c1 by (rule int_div_pos_eq)
    moreover have "(i + 1) mod 15 = c + 1" using same_row c1 by (rule int_mod_pos_eq)
    ultimately have "serpentine_cell (i + 1) = \<lparr>x = (if even r then c + 1 else 14 - (c + 1)), y = r\<rparr>"
      by (simp add: serpentine_cell_def)
    with here show ?thesis by (cases "even r") (simp_all add: adjacent_def)
  qed
qed

lemma last_bite_well_formed:
  "length (snake last_bite) = 224" "distinct (snake last_bite)"
  "\<forall>p\<in>set (snake last_bite). on_board p" "food last_bite \<notin> set (snake last_bite)"
  "coherent last_bite" "App.score last_bite = 10 * (int (length (snake last_bite)) - 3)"
proof -
  have sn: "snake last_bite = tl serpentine" by (simp add: last_bite_def)
  show len: "length (snake last_bite) = 224" by (simp add: sn serpentine_length)
  show "distinct (snake last_bite)" unfolding sn using serpentine_distinct by (rule distinct_tl)
  show "\<forall>p\<in>set (snake last_bite). on_board p"
  proof
    fix p assume "p \<in> set (snake last_bite)"
    then have "p \<in> set (tl serpentine)" by (simp only: sn)
    moreover have "serpentine \<noteq> []" by (simp add: serpentine_head)
    ultimately have "p \<in> set serpentine" using list.set_sel(2) [of serpentine p] by blast
    then show "on_board p" by (rule serpentine_on_board)
  qed
  show "food last_bite \<notin> set (snake last_bite)"
    using last_bite_facts(3,4,6) by simp
  show "coherent last_bite"
    using last_bite_facts(2) by (simp add: coherent_def last_bite_def unit_direction_def)
  show "App.score last_bite = 10 * (int (length (snake last_bite)) - 3)"
    unfolding len by (simp add: last_bite_def)
qed

lemma last_bite_contiguous:
  assumes "Suc i < length (snake last_bite)"
  shows "adjacent (snake last_bite ! i) (snake last_bite ! Suc i)"
proof -
  have sn: "snake last_bite = map serpentine_cell [1..224]"
    by (simp add: last_bite_def serpentine_def upto_rec1 [of 0 224])
  from assms have i: "Suc i < 224" by (simp add: sn)
  then have "snake last_bite ! i = serpentine_cell (1 + int i)"
    "snake last_bite ! Suc i = serpentine_cell (1 + int i + 1)"
    by (simp_all add: sn)
  moreover have "adjacent (serpentine_cell (1 + int i)) (serpentine_cell (1 + int i + 1))"
    using i by (intro serpentine_adjacent) simp_all
  ultimately show ?thesis by simp
qed

text \<open>Whatever numbers in \<open>[0, 1)\<close> the random source returns, the tick of \<open>last_bite\<close> never ends.\<close>

lemma last_bite_never_returns:
  assumes "\<forall>k. 0 \<le> Math_random env k \<and> Math_random env k < 1"
  shows "moveSnake env last_bite = None"
proof -
  have "getRandomPosition (Math_random env) (new_head last_bite # snake last_bite)
          (randomCalls last_bite) = None"
    unfolding last_bite_facts(5)
    by (rule getRandomPosition_full_board [OF assms]) (simp add: serpentine_covers)
  moreover have "new_head last_bite = food last_bite" by (simp add: last_bite_facts(3,4))
  ultimately show ?thesis
    using moveSnake_eat [OF last_bite_facts(1,2,7) _ last_bite_facts(6), of env] by simp
qed

lemma halves_in_range: "\<forall>k. 0 \<le> Math_random halves k \<and> Math_random halves k < 1"
  by (simp add: halves_def)

lemma halves_then_tenths_draws:
  "drawn (Math_random halves_then_tenths) 0 = \<lparr>x = 7, y = 7\<rparr>"
  "drawn (Math_random halves_then_tenths) 2 = \<lparr>x = 1, y = 1\<rparr>"
  "drawn (Math_random halves_then_tenths) (Suc (Suc 0)) = \<lparr>x = 1, y = 1\<rparr>"
  by (simp_all add: halves_then_tenths_def halves_def drawn_def)

section \<open>Collisions\<close>

text \<open>
  C2. In every tick in PLAYING whose new head (the head plus the buffered direction, which
  the tick applies) lies outside \<open>[0, 15)\<close> on either axis, the status becomes GAME_OVER
  and the snake, the food and the score stay as they were: nothing is prepended and no
  tail is removed.
\<close>

theorem C2_wall_collision:
  assumes "status s = PLAYING" and "snake s \<noteq> []" and "\<not> on_board (new_head s)"
  shows "\<exists>s'. moveSnake env s = Some (Returns s') \<and> status s' = GAME_OVER
              \<and> snake s' = snake s \<and> food s' = food s \<and> App.score s' = App.score s"
proof -
  have "moveSnake env s = Some (Returns (handleGameOver env (applied s)))"
    using assms by (rule moveSnake_wall)
  then show ?thesis by (simp add: handleGameOver_frame applied_def)
qed

text \<open>The scenario of the specification: a head at \<open>(0, 3)\<close> moving \<open>(-1, 0)\<close>.\<close>

theorem C2_head_at_0_3_moving_left:
  "status at_left_wall = PLAYING \<and> hd (snake at_left_wall) = \<lparr>x = 0, y = 3\<rparr>
   \<and> nextDirectionRef at_left_wall = \<lparr>x = -1, y = 0\<rparr>
   \<and> (\<exists>s'. moveSnake halves at_left_wall = Some (Returns s') \<and> status s' = GAME_OVER
         \<and> snake s' = [\<lparr>x = 0, y = 3\<rparr>, \<lparr>x = 1, y = 3\<rparr>, \<lparr>x = 2, y = 3\<rparr>]
         \<and> food s' = \<lparr>x = 7, y = 4\<rparr> \<and> App.score s' = 0)"
  using C2_wall_collision [of at_left_wall halves]
  by (simp add: at_left_wall_def mounted_def new_head_def on_board_def BOARD_SIZE_def)

text \<open>
  C3. In every tick in PLAYING whose new head is on the board, the new head is compared
  with the body without its tail cell when it is not on the food, and with the whole body
  when it is; if it equals a cell of that set, the status becomes GAME_OVER and the snake,
  the food and the score stay as they were. If it equals none, the tick does not end the
  game.
\<close>

theorem C3_self_collision:
  assumes "status s = PLAYING" and "snake s \<noteq> []" and "on_board (new_head s)"
  shows "(new_head s \<in> set (if new_head s = food s then snake s else butlast (snake s)) \<longrightarrow>
            (\<exists>s'. moveSnake env s = Some (Returns s') \<and> status s' = GAME_OVER
                  \<and> snake s' = snake s \<and> food s' = food s \<and> App.score s' = App.score s))
       \<and> (new_head s \<notin> set (if new_head s = food s then snake s else butlast (snake s)) \<longrightarrow>
            (\<forall>r. moveSnake env s = Some r \<longrightarrow> status (final r) = PLAYING))"
proof (intro conjI impI allI)
  assume "new_head s \<in> set (if new_head s = food s then snake s else butlast (snake s))"
  with assms have "moveSnake env s = Some (Returns (handleGameOver env (applied s)))"
    by (rule moveSnake_self)
  then show "\<exists>s'. moveSnake env s = Some (Returns s') \<and> status s' = GAME_OVER
                  \<and> snake s' = snake s \<and> food s' = food s \<and> App.score s' = App.score s"
    by (simp add: handleGameOver_frame applied_def)
next
  fix r
  assume "new_head s \<notin> set (if new_head s = food s then snake s else butlast (snake s))"
    and "moveSnake env s = Some r"
  with assms show "status (final r) = PLAYING"
    by (auto simp: moveSnake_playing applied_def split: if_splits option.splits)
qed

text \<open>
  A turn into the fourth of five cells ends the game; so does a turn into the cell of the
  tail when the food lies there, since the tail then stays; a turn into the cell of the
  tail when the food is elsewhere does not.
\<close>

theorem C3_coiled_snakes:
  "(\<exists>s'. moveSnake halves coiled5 = Some (Returns s') \<and> status s' = GAME_OVER
         \<and> snake s' = snake coiled5 \<and> food s' = \<lparr>x = 7, y = 4\<rparr> \<and> App.score s' = 20)
   \<and> (\<exists>s'. moveSnake halves coiled4_food_on_tail = Some (Returns s') \<and> status s' = GAME_OVER
         \<and> snake s' = snake coiled4 \<and> food s' = \<lparr>x = 6, y = 5\<rparr> \<and> App.score s' = 10)
   \<and> (\<exists>s'. moveSnake halves coiled4 = Some (Returns s') \<and> status s' = PLAYING)"
proof -
  have 5: "status coiled5 = PLAYING" "snake coiled5 \<noteq> []" "on_board (new_head coiled5)"
    "new_head coiled5 \<in> set (if new_head coiled5 = food coiled5 then snake coiled5
                             else butlast (snake coiled5))"
    "food coiled5 = \<lparr>x = 7, y = 4\<rparr>" "App.score coiled5 = 20"
    by (simp_all add: coiled5_def mounted_def new_head_def on_board_def BOARD_SIZE_def)
  from C3_self_collision [OF 5(1,2,3), of halves] 5(4)
  obtain s' where "moveSnake halves coiled5 = Some (Returns s')" "status s' = GAME_OVER"
    "snake s' = snake coiled5" "food s' = food coiled5" "App.score s' = App.score coiled5"
    by blast
  then have first: "\<exists>s'. moveSnake halves coiled5 = Some (Returns s') \<and> status s' = GAME_OVER
         \<and> snake s' = snake coiled5 \<and> food s' = \<lparr>x = 7, y = 4\<rparr> \<and> App.score s' = 20"
    by (simp add: 5(5,6))
  have t: "status coiled4_food_on_tail = PLAYING" "snake coiled4_food_on_tail \<noteq> []"
    "on_board (new_head coiled4_food_on_tail)"
    "new_head coiled4_food_on_tail \<in>
       set (if new_head coiled4_food_on_tail = food coiled4_food_on_tail
            then snake coiled4_food_on_tail else butlast (snake coiled4_food_on_tail))"
    "food coiled4_food_on_tail = \<lparr>x = 6, y = 5\<rparr>" "App.score coiled4_food_on_tail = 10"
    "snake coiled4_food_on_tail = snake coiled4"
    by (simp_all add: coiled4_food_on_tail_def coiled4_def mounted_def new_head_def on_board_def
        BOARD_SIZE_def)
  from C3_self_collision [OF t(1,2,3), of halves] t(4)
  obtain s' where "moveSnake halves coiled4_food_on_tail = Some (Returns s')"
    "status s' = GAME_OVER" "snake s' = snake coiled4_food_on_tail"
    "food s' = food coiled4_food_on_tail" "App.score s' = App.score coiled4_food_on_tail"
    by blast
  then have second: "\<exists>s'. moveSnake halves coiled4_food_on_tail = Some (Returns s')
         \<and> status s' = GAME_OVER \<and> snake s' = snake coiled4 \<and> food s' = \<lparr>x = 6, y = 5\<rparr>
         \<and> App.score s' = 10"
    by (simp add: t(5,6,7))
  have c: "status coiled4 = PLAYING" "snake coiled4 \<noteq> []" "on_board (new_head coiled4)"
    "new_head coiled4 \<noteq> food coiled4" "new_head coiled4 \<notin> set (butlast (snake coiled4))"
    by (simp_all add: coiled4_def mounted_def new_head_def on_board_def BOARD_SIZE_def)
  have m: "moveSnake halves coiled4 =
      Some (Returns ((applied coiled4)\<lparr>snake := new_head coiled4 # butlast (snake coiled4)\<rparr>))"
    using c by (rule moveSnake_step)
  moreover have "new_head coiled4 \<notin> set (if new_head coiled4 = food coiled4
                                          then snake coiled4 else butlast (snake coiled4))"
    using c(4,5) by simp
  ultimately have "status (final (Returns ((applied coiled4)
      \<lparr>snake := new_head coiled4 # butlast (snake coiled4)\<rparr>))) = PLAYING"
    using C3_self_collision [OF c(1,2,3), of halves] by blast
  with m have third: "\<exists>s'. moveSnake halves coiled4 = Some (Returns s') \<and> status s' = PLAYING"
    by simp
  from first second third show ?thesis by (intro conjI)
qed

section \<open>The commit step\<close>

text \<open>
  C1, as stated, fails in the tick that fills the board. The snake of \<open>last_bite\<close> lies on
  224 cells and eats the food in the last free one: the tick reaches the commit step, the
  new snake covers the board, every cell drawn is rejected, and the tick never returns, so
  no score is added and no food is placed. This is so for every random source
  (\<open>last_bite_never_returns\<close>); the theorem takes the one that always returns a half.
\<close>

theorem C1_board_filling_tick:
  "status last_bite = PLAYING \<and> snake last_bite \<noteq> [] \<and> on_board (new_head last_bite)
   \<and> new_head last_bite = food last_bite \<and> new_head last_bite \<notin> set (snake last_bite)
   \<and> moveSnake halves last_bite = None"
proof -
  have "moveSnake halves last_bite = None"
    using halves_in_range by (rule last_bite_never_returns)
  moreover have "new_head last_bite = food last_bite" by (simp add: last_bite_facts(3,4))
  ultimately show ?thesis using last_bite_facts(1,2,6,7) by blast
qed

text \<open>
  C1, amended. A tick in PLAYING that reaches the commit step (new head on the board and
  off the cells it is compared with) does the following. If the new head is on the food
  and the random source at some point draws a cell off the new snake, the tick returns,
  the score grows by exactly 10, the new head is prepended and the tail kept (the length
  grows by exactly 1), and the new food is on no cell of the new snake, new head
  included. If the new head is not on the food, the tick returns, the new head is
  prepended and the tail removed, and length, score and food are unchanged. And whatever
  the state, a tick that completes leaves the length as it was or one more: the length
  never decreases in a tick.
\<close>

theorem C1_commit:
  "(status s = PLAYING \<and> snake s \<noteq> [] \<and> on_board (new_head s)
      \<and> new_head s \<notin> set (if new_head s = food s then snake s else butlast (snake s)) \<longrightarrow>
      (new_head s = food s
         \<and> (\<exists>k. drawn (Math_random env) (randomCalls s + 2 * k) \<notin> set (new_head s # snake s)) \<longrightarrow>
         (\<exists>s'. moveSnake env s = Some (Returns s') \<and> App.score s' = App.score s + 10
               \<and> snake s' = new_head s # snake s \<and> length (snake s') = length (snake s) + 1
               \<and> food s' \<notin> set (snake s')))
      \<and> (new_head s \<noteq> food s \<longrightarrow>
         (\<exists>s'. moveSnake env s = Some (Returns s') \<and> App.score s' = App.score s
               \<and> snake s' = new_head s # butlast (snake s)
               \<and> length (snake s') = length (snake s) \<and> food s' = food s)))
   \<and> (\<forall>r. moveSnake env s = Some r \<longrightarrow>
         length (snake (final r)) = length (snake s)
         \<or> length (snake (final r)) = length (snake s) + 1)"
proof (intro conjI impI allI)
  assume a: "status s = PLAYING \<and> snake s \<noteq> [] \<and> on_board (new_head s)
      \<and> new_head s \<notin> set (if new_head s = food s then snake s else butlast (snake s))"
    and e: "new_head s = food s
      \<and> (\<exists>k. drawn (Math_random env) (randomCalls s + 2 * k) \<notin> set (new_head s # snake s))"
  from a e have free: "new_head s \<notin> set (snake s)" by simp
  from e obtain p m where
    pm: "getRandomPosition (Math_random env) (new_head s # snake s) (randomCalls s) = Some (p, m)"
      "p \<notin> set (new_head s # snake s)"
    using getRandomPosition_returns [of "Math_random env" "randomCalls s" "new_head s # snake s"]
    by blast
  have "moveSnake env s = Some (Returns ((applied s)\<lparr>score := App.score s + 10, food := p,
                                     snake := new_head s # snake s, randomCalls := m\<rparr>))"
    using moveSnake_eat [of s env] a e free pm(1) by simp
  with pm(2) show "\<exists>s'. moveSnake env s = Some (Returns s') \<and> App.score s' = App.score s + 10
               \<and> snake s' = new_head s # snake s \<and> length (snake s') = length (snake s) + 1
               \<and> food s' \<notin> set (snake s')"
    by simp
next
  assume a: "status s = PLAYING \<and> snake s \<noteq> [] \<and> on_board (new_head s)
      \<and> new_head s \<notin> set (if new_head s = food s then snake s else butlast (snake s))"
    and ne: "new_head s \<noteq> food s"
  then have "moveSnake env s = Some (Returns ((applied s)\<lparr>snake := new_head s # butlast (snake s)\<rparr>))"
    using moveSnake_step [of s env] by simp
  with a show "\<exists>s'. moveSnake env s = Some (Returns s') \<and> App.score s' = App.score s
               \<and> snake s' = new_head s # butlast (snake s)
               \<and> length (snake s') = length (snake s) \<and> food s' = food s"
    by (simp add: applied_def)
next
  fix r assume "moveSnake env s = Some r"
  then show "length (snake (final r)) = length (snake s)
         \<or> length (snake (final r)) = length (snake s) + 1"
    by (rule moveSnake_length)
qed

text \<open>
  Eating with one rejected draw (the first cell drawn, \<open>(7, 7)\<close>, is on the snake), and a
  move into the cell that the tail leaves in the same tick.
\<close>

theorem C1_eating_and_tail_chasing:
  "(\<exists>s'. moveSnake halves_then_tenths before_food = Some (Returns s') \<and> App.score s' = 10
         \<and> snake s' = [\<lparr>x = 7, y = 6\<rparr>, \<lparr>x = 7, y = 7\<rparr>, \<lparr>x = 7, y = 8\<rparr>, \<lparr>x = 7, y = 9\<rparr>]
         \<and> food s' \<notin> set (snake s'))
   \<and> (\<exists>s'. moveSnake halves coiled4 = Some (Returns s') \<and> App.score s' = 10
         \<and> snake s' = [\<lparr>x = 6, y = 5\<rparr>, \<lparr>x = 5, y = 5\<rparr>, \<lparr>x = 5, y = 6\<rparr>, \<lparr>x = 6, y = 6\<rparr>]
         \<and> food s' = \<lparr>x = 7, y = 4\<rparr>)"
proof -
  have b: "status before_food = PLAYING \<and> snake before_food \<noteq> [] \<and> on_board (new_head before_food)
      \<and> new_head before_food \<notin> set (if new_head before_food = food before_food
                                     then snake before_food else butlast (snake before_food))"
    and eats: "new_head before_food = food before_food"
    by (simp_all add: before_food_def mounted_def new_head_def on_board_def
        BOARD_SIZE_def INITIAL_SNAKE_def INITIAL_DIRECTION_def)
  have "drawn (Math_random halves_then_tenths) (randomCalls before_food + 2 * 1)
          \<notin> set (new_head before_food # snake before_food)"
    by (simp add: halves_then_tenths_draws before_food_def mounted_def new_head_def
        INITIAL_SNAKE_def INITIAL_DIRECTION_def)
  then have "\<exists>k. drawn (Math_random halves_then_tenths) (randomCalls before_food + 2 * k)
          \<notin> set (new_head before_food # snake before_food)" by (rule exI)
  with C1_commit [of before_food halves_then_tenths] b eats
  obtain s' where "moveSnake halves_then_tenths before_food = Some (Returns s')"
    "App.score s' = App.score before_food + 10"
    "snake s' = new_head before_food # snake before_food" "food s' \<notin> set (snake s')"
    by blast
  then have first: "\<exists>s'. moveSnake halves_then_tenths before_food = Some (Returns s')
      \<and> App.score s' = 10
      \<and> snake s' = [\<lparr>x = 7, y = 6\<rparr>, \<lparr>x = 7, y = 7\<rparr>, \<lparr>x = 7, y = 8\<rparr>, \<lparr>x = 7, y = 9\<rparr>]
      \<and> food s' \<notin> set (snake s')"
    by (simp add: before_food_def mounted_def new_head_def INITIAL_SNAKE_def INITIAL_DIRECTION_def)
  have c: "status coiled4 = PLAYING \<and> snake coiled4 \<noteq> [] \<and> on_board (new_head coiled4)
      \<and> new_head coiled4 \<notin> set (if new_head coiled4 = food coiled4
                                 then snake coiled4 else butlast (snake coiled4))"
    and moves: "new_head coiled4 \<noteq> food coiled4"
    by (simp_all add: coiled4_def mounted_def new_head_def on_board_def BOARD_SIZE_def)
  with C1_commit [of coiled4 halves]
  obtain s' where "moveSnake halves coiled4 = Some (Returns s')"
    "App.score s' = App.score coiled4"
    "snake s' = new_head coiled4 # butlast (snake coiled4)" "food s' = food coiled4"
    by blast
  then have "\<exists>s'. moveSnake halves coiled4 = Some (Returns s') \<and> App.score s' = 10
      \<and> snake s' = [\<lparr>x = 6, y = 5\<rparr>, \<lparr>x = 5, y = 5\<rparr>, \<lparr>x = 5, y = 6\<rparr>, \<lparr>x = 6, y = 6\<rparr>]
      \<and> food s' = \<lparr>x = 7, y = 4\<rparr>"
    by (simp add: coiled4_def mounted_def new_head_def)
  with first show ?thesis by (rule conjI)
qed

section \<open>Termination of the food placement\<close>

text \<open>
  C10. The board has 225 cells. With random numbers in \<open>[0, 1)\<close>, \<open>getRandomPosition\<close>
  returns only a board cell that is on no segment of the snake it is given, so it can
  return only when such a cell exists; it does return as soon as the random source draws
  one. If the snake lies on every cell of the board the loop never returns, and so the
  eating tick whose new snake fills the board does not terminate.
\<close>

theorem C10_food_placement:
  assumes "\<forall>k. 0 \<le> random k \<and> random k < 1"
  shows "card {p. on_board p} = 225
     \<and> (\<forall>p m. getRandomPosition random sn n = Some (p, m) \<longrightarrow> on_board p \<and> p \<notin> set sn)
     \<and> ((\<exists>r. getRandomPosition random sn n = Some r) \<longrightarrow> (\<exists>p. on_board p \<and> p \<notin> set sn))
     \<and> ((\<exists>k. drawn random (n + 2 * k) \<notin> set sn) \<longrightarrow>
          (\<exists>p m. getRandomPosition random sn n = Some (p, m)))
     \<and> ((\<forall>p. on_board p \<longrightarrow> p \<in> set sn) \<longrightarrow> getRandomPosition random sn n = None)
     \<and> (Math_random env = random \<and> status s = PLAYING \<and> snake s \<noteq> []
          \<and> on_board (new_head s) \<and> new_head s = food s \<and> new_head s \<notin> set (snake s)
          \<and> (\<forall>p. on_board p \<longrightarrow> p \<in> set (new_head s # snake s)) \<longrightarrow>
          moveSnake env s = None)"
proof (intro conjI allI impI)
  show "card {p. on_board p} = 225" by (rule board_cells)
next
  fix p m assume "getRandomPosition random sn n = Some (p, m)"
  from getRandomPosition_result [OF this] obtain k
    where "p = drawn random (n + 2 * k)" "drawn random (n + 2 * k) \<notin> set sn" by auto
  with drawn_on_board [OF assms] show "on_board p" "p \<notin> set sn" by simp_all
next
  assume "\<exists>r. getRandomPosition random sn n = Some r"
  then obtain r where "getRandomPosition random sn n = Some r" ..
  from getRandomPosition_result [OF this] obtain k
    where "drawn random (n + 2 * k) \<notin> set sn" by auto
  with drawn_on_board [OF assms] show "\<exists>p. on_board p \<and> p \<notin> set sn" by blast
next
  assume "\<exists>k. drawn random (n + 2 * k) \<notin> set sn"
  from getRandomPosition_returns [OF this]
  show "\<exists>p m. getRandomPosition random sn n = Some (p, m)" by blast
next
  assume "\<forall>p. on_board p \<longrightarrow> p \<in> set sn"
  with assms show "getRandomPosition random sn n = None" by (rule getRandomPosition_full_board)
next
  assume a: "Math_random env = random \<and> status s = PLAYING \<and> snake s \<noteq> []
          \<and> on_board (new_head s) \<and> new_head s = food s \<and> new_head s \<notin> set (snake s)
          \<and> (\<forall>p. on_board p \<longrightarrow> p \<in> set (new_head s # snake s))"
  then have "getRandomPosition (Math_random env) (new_head s # snake s) (randomCalls s) = None"
    using getRandomPosition_full_board [OF assms] by blast
  moreover have "moveSnake env s =
     (case getRandomPosition (Math_random env) (new_head s # snake s) (randomCalls s) of
        None \<Rightarrow> None
      | Some (pos, n') \<Rightarrow>
          Some (Returns ((applied s)\<lparr>score := App.score s + 10, food := pos,
                                     snake := new_head s # snake s, randomCalls := n'\<rparr>)))"
    using a by (intro moveSnake_eat) blast+
  ultimately show "moveSnake env s = None" by simp
qed

text \<open>
  A snake of one cell next to the cell drawn; the snake on all 225 cells; and the tick of
  \<open>last_bite\<close>, which eats the food in the last free cell.
\<close>

theorem C10_one_cell_and_full_board:
  "getRandomPosition (\<lambda>k. 1 / 2) [\<lparr>x = 7, y = 8\<rparr>] 0 = Some (\<lparr>x = 7, y = 7\<rparr>, 2)
   \<and> on_board \<lparr>x = 7, y = 7\<rparr> \<and> \<lparr>x = 7, y = 7\<rparr> \<notin> set [\<lparr>x = 7, y = 8\<rparr>]
   \<and> getRandomPosition (\<lambda>k. 1 / 2) serpentine 0 = None
   \<and> moveSnake halves last_bite = None"
proof -
  have r: "\<forall>k::nat. 0 \<le> (1 / 2 :: real) \<and> (1 / 2 :: real) < 1" by simp
  have g: "getRandomPosition (\<lambda>k. 1 / 2) [\<lparr>x = 7, y = 8\<rparr>] 0 = Some (\<lparr>x = 7, y = 7\<rparr>, 2)"
    by (subst getRandomPosition.simps) (simp add: BOARD_SIZE_def)
  have full: "\<forall>p. on_board p \<longrightarrow> p \<in> set serpentine" by (simp add: serpentine_covers)
  have m: "Math_random halves = (\<lambda>k. 1 / 2)" by (simp add: halves_def)
  have eats: "new_head last_bite = food last_bite" by (simp add: last_bite_facts(3,4))
  note c10 = C10_food_placement [OF r]
  from c10 [of "[\<lparr>x = 7, y = 8\<rparr>]" 0] g
  have "on_board \<lparr>x = 7, y = 7\<rparr> \<and> \<lparr>x = 7, y = 7\<rparr> \<notin> set [\<lparr>x = 7, y = 8\<rparr>]" by blast
  moreover from c10 [of serpentine 0] full
  have "getRandomPosition (\<lambda>k. 1 / 2) serpentine 0 = None" by blast
  moreover from c10 [of _ _ halves last_bite] m eats last_bite_facts(1,2,6,7) full
  have "moveSnake halves last_bite = None" unfolding last_bite_facts(5) by blast
  ultimately show ?thesis using g by blast
qed

section \<open>The leaderboard\<close>

lemma js_insert_insort:
  "js_insert (\<lambda>a b. the (score_of b) - the (score_of a)) v vs =
   insort_key (\<lambda>v. - the (score_of v)) v vs"
  by (induction vs) auto

lemma js_sort_sort_key:
  "js_sort (\<lambda>a b. the (score_of b) - the (score_of a)) vs =
   sort_key (\<lambda>v. - the (score_of v)) vs"
  by (induction vs) (simp_all add: js_sort_def js_insert_insort)

lemma sorted_descending:
  "sorted_wrt (\<lambda>a b. the (score_of b) \<le> the (score_of a))
     (sort_key (\<lambda>v. - the (score_of v)) vs)"
proof -
  have "sorted (map (\<lambda>v. - the (score_of v)) (sort_key (\<lambda>v. - the (score_of v)) vs))"
    by (rule sorted_sort_key)
  then show ?thesis by (simp add: sorted_map)
qed

lemma score_of_entry_object:
  "score_of (entry_object e) = Some (of_int (LeaderboardEntry.score e))"
  by (simp add: score_of_def entry_object_def js_def)

lemma scored_append_entry: "scored (vs @ [entry_object e]) = scored vs"
  by (simp add: scored_def score_of_entry_object)

lemma scored_ranked: "scored vs \<Longrightarrow> scored (take n (sort_key f vs))"
  by (auto simp: scored_def list_all_iff dest: in_set_takeD)

lemma sort_by_score_scored:
  "scored arr \<Longrightarrow> sort_by_score env arr = Inr (sort_key (\<lambda>v. - the (score_of v)) arr)"
  by (simp add: sort_by_score_def js_sort_sort_key)

text \<open>What \<open>trim\<close> removes and what it leaves.\<close>

lemma all_dropWhile: "(\<forall>c\<in>set (dropWhile P s). P c) = (\<forall>c\<in>set s. P c)"
proof
  assume a: "\<forall>c\<in>set (dropWhile P s). P c"
  have "dropWhile P s = []"
  proof (rule ccontr)
    assume ne: "dropWhile P s \<noteq> []"
    then have "\<not> P (hd (dropWhile P s))" by (rule hd_dropWhile)
    moreover have "hd (dropWhile P s) \<in> set (dropWhile P s)" using ne by simp
    ultimately show False using a by blast
  qed
  then show "\<forall>c\<in>set s. P c" by (simp add: dropWhile_eq_Nil_conv)
next
  assume "\<forall>c\<in>set s. P c"
  then show "\<forall>c\<in>set (dropWhile P s). P c" by (meson set_dropWhileD)
qed

lemma trim_empty_iff: "trim s = [] \<longleftrightarrow> (\<forall>c\<in>set s. isWhiteSpace c)"
  by (simp add: trim_def dropWhile_eq_Nil_conv all_dropWhile)

lemma trim_decomposition:
  "\<exists>l r. s = l @ trim s @ r \<and> (\<forall>c\<in>set l. isWhiteSpace c) \<and> (\<forall>c\<in>set r. isWhiteSpace c)"
proof -
  define d where "d = dropWhile isWhiteSpace s"
  define l where "l = takeWhile isWhiteSpace s"
  define r where "r = rev (takeWhile isWhiteSpace (rev d))"
  have "rev (takeWhile isWhiteSpace (rev d) @ dropWhile isWhiteSpace (rev d)) = d"
    by (simp only: takeWhile_dropWhile_id rev_rev_ident)
  then have "rev (dropWhile isWhiteSpace (rev d)) @ rev (takeWhile isWhiteSpace (rev d)) = d"
    by (simp only: rev_append)
  then have "d = trim s @ r" by (simp add: trim_def d_def r_def)
  moreover have "s = l @ d" by (simp add: l_def d_def)
  ultimately have "s = l @ trim s @ r" by simp
  moreover have "\<forall>c\<in>set l. isWhiteSpace c" unfolding l_def by (meson set_takeWhileD)
  moreover have "\<forall>c\<in>set r. isWhiteSpace c" unfolding r_def set_rev by (meson set_takeWhileD)
  ultimately show ?thesis by blast
qed

lemma trim_ends:
  assumes "trim s \<noteq> []"
  shows "\<not> isWhiteSpace (hd (trim s))" "\<not> isWhiteSpace (last (trim s))"
proof -
  define d where "d = dropWhile isWhiteSpace s"
  define e where "e = dropWhile isWhiteSpace (rev d)"
  have t: "trim s = rev e" by (simp add: trim_def d_def e_def)
  with assms have ne: "e \<noteq> []" by simp
  then have "\<not> isWhiteSpace (hd e)" unfolding e_def by (rule hd_dropWhile)
  then show "\<not> isWhiteSpace (last (trim s))" using ne by (simp add: t last_rev)
  have dne: "d \<noteq> []" using ne by (auto simp: e_def)
  have "rev d = takeWhile isWhiteSpace (rev d) @ e" by (simp add: e_def)
  then have "last (rev d) = last e" using ne by (metis last_appendR)
  then have "last e = hd d" using dne by (simp add: last_rev)
  moreover have "\<not> isWhiteSpace (hd d)" using dne unfolding d_def by (rule hd_dropWhile)
  ultimately show "\<not> isWhiteSpace (hd (trim s))" using ne by (simp add: t hd_rev)
qed

lemma trim_Alex: "trim (js ''Alex'') = js ''Alex''" "trim (js '' Alex '') = js ''Alex''"
  "trim (js ''  '') = []" "js ''Alex'' \<noteq> []"
  by (simp_all add: trim_def js_def isWhiteSpace_def)


lemma saveScoreToLeaderboard_scored:
  assumes "fst (getLeaderboard env st) = JArray stored" and "scored stored"
  shows "saveScoreToLeaderboard env nm sc st =
     (let updated = JArray (take 10 (sort_key (\<lambda>v. - the (score_of v))
            (stored @ [entry_object
               \<lparr>name = (if trim nm = [] then js ''Anonymous Agent'' else trim nm),
                score = sc, date = Date_toISOString env\<rparr>])))
      in (Inr updated,
          (if setItem_throws st then st
           else st\<lparr>items := (items st)(STORAGE_KEY \<mapsto> JSON_stringify env updated)\<rparr>),
          snd (getLeaderboard env st) @
          (if setItem_throws st then [(js ''Failed to save leaderboard'', DOMException)] else [])))"
proof -
  obtain logged where g: "getLeaderboard env st = (JArray stored, logged)"
    using assms(1) by (metis prod.collapse)
  have e: "(if trim nm \<noteq> [] then trim nm else js ''Anonymous Agent'') =
           (if trim nm = [] then js ''Anonymous Agent'' else trim nm)" by simp
  have s: "\<And>e. sort_by_score env (stored @ [entry_object e]) =
      Inr (sort_key (\<lambda>v. - the (score_of v)) (stored @ [entry_object e]))"
    using assms(2) by (simp add: sort_by_score_scored scored_append_entry)
  show ?thesis
    unfolding saveScoreToLeaderboard_def g e
    by (simp add: Let_def spread_def s MAX_ENTRIES_def localStorage_setItem_def)
qed

text \<open>The call raises when the value loaded cannot be spread, and writes nothing then.\<close>

lemma saveScoreToLeaderboard_not_iterable:
  assumes "spread (fst (getLeaderboard env st)) = Inl e"
  shows "saveScoreToLeaderboard env nm sc st = (Inl e, st, snd (getLeaderboard env st))"
proof -
  obtain current logged where g: "getLeaderboard env st = (current, logged)"
    by (metis prod.collapse)
  with assms have "spread current = Inl e" by simp
  then show ?thesis unfolding saveScoreToLeaderboard_def g by (simp add: Let_def)
qed

text \<open>The texts of the examples, read back.\<close>

lemmas example_values = board_50_def board_90_50_def board_90_50_30_def hiss_def
  grade_only_def entry_on_new_year_def entry_object_def analysis_object_def js_def

lemma JSON_parse_examples:
  "JSON_parse_examples (json_text board_50) = Inr board_50"
  "JSON_parse_examples (json_text board_90_50) = Inr board_90_50"
  "JSON_parse_examples (json_text board_90_50_30) = Inr board_90_50_30"
  "JSON_parse_examples (json_text hiss) = Inr hiss"
  "JSON_parse_examples (json_text grade_only) = Inr grade_only"
  "JSON_parse_examples (take 12 (json_text board_50)) = Inl SyntaxError"
  "JSON_parse_examples (take 12 (json_text hiss)) = Inl SyntaxError"
  "JSON_parse_examples (js ''null'') = Inr JNull"
  "JSON_parse_examples (js ''{}'') = Inr (JObject [])"
  by (simp_all add: JSON_parse_examples_def example_values)

lemma json_text_nonempty:
  "json_text board_50 \<noteq> []" "json_text board_90_50 \<noteq> []" "json_text board_90_50_30 \<noteq> []"
  "json_text hiss \<noteq> []" "json_text grade_only \<noteq> []"
  "take 12 (json_text board_50) \<noteq> []" "take 12 (json_text hiss) \<noteq> []"
  "js ''null'' \<noteq> []" "js ''{}'' \<noteq> []"
  by (simp_all add: example_values)

lemma getLeaderboard_holding:
  assumes "JSON_parse_examples t = Inr v" and "t \<noteq> []"
  shows "getLeaderboard halves \<lparr>items = [STORAGE_KEY \<mapsto> t], getItem_throws = False,
           setItem_throws = w\<rparr> = (v, [])"
  using assms
  by (simp add: getLeaderboard_def getLeaderboard_try_def localStorage_getItem_def halves_def)

lemma score_of_entry_on_new_year: "score_of (entry_on_new_year nm sc) = Some (of_int sc)"
  by (simp add: entry_on_new_year_def score_of_entry_object)

lemma scored_boards:
  "scored []" "scored [entry_on_new_year (js ''Alex'') 50]"
  "scored [entry_on_new_year (js ''Anonymous Agent'') 90, entry_on_new_year (js ''Alex'') 50]"
  "scored [entry_on_new_year (js ''Anonymous Agent'') 90, entry_on_new_year (js ''Alex'') 50,
           entry_on_new_year (js ''Alex'') 30]"
  by (simp_all add: scored_def score_of_entry_on_new_year)

lemma entry_on_new_year_halves:
  "entry_object \<lparr>name = nm, score = sc, date = Date_toISOString halves\<rparr> = entry_on_new_year nm sc"
  by (simp add: entry_on_new_year_def halves_def)

lemma after_50:
  "after_50 = \<lparr>items = [STORAGE_KEY \<mapsto> json_text board_50], getItem_throws = False,
                setItem_throws = False\<rparr>"
proof -
  have "getLeaderboard halves (localStorage mounted) = (JArray [], [])"
    by (simp add: getLeaderboard_def getLeaderboard_try_def localStorage_getItem_def mounted_def)
  then have "fst (getLeaderboard halves (localStorage mounted)) = JArray []" by simp
  from saveScoreToLeaderboard_scored [OF this scored_boards(1), of "js '' Alex ''" 50]
  show ?thesis
    by (simp add: after_50_def Let_def trim_Alex entry_on_new_year_halves board_50_def
        score_of_entry_on_new_year)
       (simp add: mounted_def halves_def)
qed

lemma after_50_90:
  "after_50_90 = \<lparr>items = [STORAGE_KEY \<mapsto> json_text board_90_50], getItem_throws = False,
                   setItem_throws = False\<rparr>"
proof -
  have "fst (getLeaderboard halves after_50) = board_50"
    unfolding after_50
    by (simp add: getLeaderboard_holding [OF JSON_parse_examples(1) json_text_nonempty(1)])
  from saveScoreToLeaderboard_scored [OF this [unfolded board_50_def] scored_boards(2),
      of "js ''  ''" 90]
  show ?thesis
    by (simp add: after_50_90_def Let_def trim_Alex entry_on_new_year_halves board_90_50_def
        score_of_entry_on_new_year)
       (simp add: after_50 halves_def)
qed

lemma after_50_90_30:
  "after_50_90_30 = \<lparr>items = [STORAGE_KEY \<mapsto> json_text board_90_50_30], getItem_throws = False,
                      setItem_throws = False\<rparr>"
proof -
  have "fst (getLeaderboard halves after_50_90) = board_90_50"
    unfolding after_50_90
    by (simp add: getLeaderboard_holding [OF JSON_parse_examples(2) json_text_nonempty(2)])
  from saveScoreToLeaderboard_scored [OF this [unfolded board_90_50_def] scored_boards(3),
      of "js ''Alex''" 30]
  show ?thesis
    by (simp add: after_50_90_30_def Let_def trim_Alex entry_on_new_year_halves
        board_90_50_30_def score_of_entry_on_new_year)
       (simp add: after_50_90 halves_def)
qed

text \<open>
  C7. A call of \<open>saveScoreToLeaderboard\<close> in which the value loaded from the storage is
  an array whose elements have a number as their \<open>score\<close> returns this array with one
  entry appended, whose name is the trimmed name or \<open>Anonymous Agent\<close> when the trimmed
  name is empty, sorted by descending score and cut to its first 10 elements. The sort
  loses and merges nothing: the sorted list has the elements of the loaded array and the
  new entry, and elements of equal score keep their order. The list returned is again an
  array whose elements have a number as their score, and if the write succeeds it is
  what is stored under the key. The trimmed name is the name without the white space at
  its two ends: it begins and ends with a code unit that is not white space.
\<close>

theorem C7_save_score:
  assumes "fst (getLeaderboard env st) = JArray stored" and "scored stored"
  shows
  "(let entry = entry_object
                  \<lparr>name = (if trim nm = [] then js ''Anonymous Agent'' else trim nm),
                   score = sc, date = Date_toISOString env\<rparr>;
        ranked = sort_key (\<lambda>v. - the (score_of v)) (stored @ [entry]);
        updated = JArray (take 10 ranked);
        st' = fst (snd (saveScoreToLeaderboard env nm sc st))
    in fst (saveScoreToLeaderboard env nm sc st) = Inr updated
       \<and> mset ranked = mset stored + {#entry#}
       \<and> (\<forall>k. filter (\<lambda>v. score_of v = Some k) ranked =
               filter (\<lambda>v. score_of v = Some k) (stored @ [entry]))
       \<and> sorted_wrt (\<lambda>a b. the (score_of b) \<le> the (score_of a)) ranked
       \<and> sorted_wrt (\<lambda>a b. the (score_of b) \<le> the (score_of a)) (take 10 ranked)
       \<and> length (take 10 ranked) \<le> 10
       \<and> scored (take 10 ranked)
       \<and> (\<not> setItem_throws st \<longrightarrow>
            st' = st\<lparr>items := (items st)(STORAGE_KEY \<mapsto> JSON_stringify env updated)\<rparr>))
   \<and> (\<exists>l r. nm = l @ trim nm @ r \<and> (\<forall>c\<in>set l. isWhiteSpace c) \<and> (\<forall>c\<in>set r. isWhiteSpace c))
   \<and> (trim nm \<noteq> [] \<longrightarrow> \<not> isWhiteSpace (hd (trim nm)) \<and> \<not> isWhiteSpace (last (trim nm)))"
proof -
  define entry where "entry = entry_object
                  \<lparr>name = (if trim nm = [] then js ''Anonymous Agent'' else trim nm),
                   score = sc, date = Date_toISOString env\<rparr>"
  define ranked where "ranked = sort_key (\<lambda>v. - the (score_of v)) (stored @ [entry])"
  have all: "scored (stored @ [entry])"
    using assms(2) by (simp add: entry_def scored_append_entry)
  have save: "saveScoreToLeaderboard env nm sc st =
      (Inr (JArray (take 10 ranked)),
       (if setItem_throws st then st
        else st\<lparr>items := (items st)(STORAGE_KEY \<mapsto> JSON_stringify env (JArray (take 10 ranked)))\<rparr>),
       snd (getLeaderboard env st) @
       (if setItem_throws st then [(js ''Failed to save leaderboard'', DOMException)] else []))"
    using saveScoreToLeaderboard_scored [OF assms, of nm sc]
    by (simp add: Let_def ranked_def entry_def)
  have u: "fst (saveScoreToLeaderboard env nm sc st) = Inr (JArray (take 10 ranked))"
    by (simp add: save)
  have s: "\<not> setItem_throws st \<longrightarrow> fst (snd (saveScoreToLeaderboard env nm sc st)) =
      st\<lparr>items := (items st)(STORAGE_KEY \<mapsto> JSON_stringify env (JArray (take 10 ranked)))\<rparr>"
    by (simp add: save)
  have sr: "sorted_wrt (\<lambda>a b. the (score_of b) \<le> the (score_of a)) ranked"
    unfolding ranked_def by (rule sorted_descending)
  have st: "sorted_wrt (\<lambda>a b. the (score_of b) \<le> the (score_of a)) (take 10 ranked)"
    using sr by (rule sorted_wrt_take)
  have m: "mset ranked = mset stored + {#entry#}" by (simp add: ranked_def)
  have f: "\<forall>k. filter (\<lambda>v. score_of v = Some k) ranked =
               filter (\<lambda>v. score_of v = Some k) (stored @ [entry])"
  proof
    fix k
    have same: "\<And>v. v \<in> set (stored @ [entry]) \<Longrightarrow>
        (score_of v = Some k) = (- the (score_of v) = - k)"
    proof -
      fix v assume "v \<in> set (stored @ [entry])"
      with all have "score_of v \<noteq> None" unfolding scored_def list_all_iff by blast
      then obtain n where "score_of v = Some n" by blast
      then show "(score_of v = Some k) = (- the (score_of v) = - k)" by simp
    qed
    have "set ranked = set (stored @ [entry])" unfolding ranked_def by (rule set_sort)
    with same have "filter (\<lambda>v. score_of v = Some k) ranked =
        filter (\<lambda>v. - the (score_of v) = - k) ranked"
      by (intro filter_cong) (simp_all del: set_append)
    also have "\<dots> = filter (\<lambda>v. - the (score_of v) = - k) (stored @ [entry])"
      unfolding ranked_def by (rule sort_key_stable)
    also have "\<dots> = filter (\<lambda>v. score_of v = Some k) (stored @ [entry])"
      using same by (intro filter_cong) (simp_all del: set_append)
    finally show "filter (\<lambda>v. score_of v = Some k) ranked =
               filter (\<lambda>v. score_of v = Some k) (stored @ [entry])" .
  qed
  have sc: "scored (take 10 ranked)" unfolding ranked_def using all by (rule scored_ranked)
  have l: "length (take 10 ranked) \<le> 10" by simp
  have t1: "\<exists>l r. nm = l @ trim nm @ r \<and> (\<forall>c\<in>set l. isWhiteSpace c) \<and> (\<forall>c\<in>set r. isWhiteSpace c)"
    by (rule trim_decomposition)
  have t2: "trim nm \<noteq> [] \<longrightarrow> \<not> isWhiteSpace (hd (trim nm)) \<and> \<not> isWhiteSpace (last (trim nm))"
    using trim_ends [of nm] by blast
  have main: "fst (saveScoreToLeaderboard env nm sc st) = Inr (JArray (take 10 ranked))
       \<and> mset ranked = mset stored + {#entry#}
       \<and> (\<forall>k. filter (\<lambda>v. score_of v = Some k) ranked =
               filter (\<lambda>v. score_of v = Some k) (stored @ [entry]))
       \<and> sorted_wrt (\<lambda>a b. the (score_of b) \<le> the (score_of a)) ranked
       \<and> sorted_wrt (\<lambda>a b. the (score_of b) \<le> the (score_of a)) (take 10 ranked)
       \<and> length (take 10 ranked) \<le> 10
       \<and> scored (take 10 ranked)
       \<and> (\<not> setItem_throws st \<longrightarrow>
            fst (snd (saveScoreToLeaderboard env nm sc st)) =
            st\<lparr>items := (items st)(STORAGE_KEY \<mapsto> JSON_stringify env (JArray (take 10 ranked)))\<rparr>)"
    using u m f sr st l sc s by (intro conjI)
  show ?thesis
    unfolding Let_def entry_def [symmetric] ranked_def [symmetric]
    by (rule conjI [OF main conjI [OF t1 t2]])
qed

text \<open>
  Alex, entered with a blank on either side, saves 50 on an empty storage; a player
  who entered two blanks saves 90; Alex saves 30 and then 90. The entries carry the
  names \<open>Alex\<close> and \<open>Anonymous Agent\<close>, and the scores end as 90, 90, 50, 30, the older 90
  first.
\<close>

theorem C7_saving_50_90_30_then_90:
  "fst (saveScoreToLeaderboard halves (js '' Alex '') 50 (localStorage mounted)) =
     Inr (JArray [entry_on_new_year (js ''Alex'') 50])
   \<and> fst (saveScoreToLeaderboard halves (js ''  '') 90 after_50) =
     Inr (JArray [entry_on_new_year (js ''Anonymous Agent'') 90,
                  entry_on_new_year (js ''Alex'') 50])
   \<and> fst (saveScoreToLeaderboard halves (js ''Alex'') 30 after_50_90) =
     Inr (JArray [entry_on_new_year (js ''Anonymous Agent'') 90,
                  entry_on_new_year (js ''Alex'') 50,
                  entry_on_new_year (js ''Alex'') 30])
   \<and> fst (saveScoreToLeaderboard halves (js ''Alex'') 90 after_50_90_30) =
     Inr (JArray [entry_on_new_year (js ''Anonymous Agent'') 90,
                  entry_on_new_year (js ''Alex'') 90,
                  entry_on_new_year (js ''Alex'') 50,
                  entry_on_new_year (js ''Alex'') 30])
   \<and> items (fst (snd (saveScoreToLeaderboard halves (js ''Alex'') 90 after_50_90_30)))
       STORAGE_KEY =
     Some (json_text (JArray [entry_on_new_year (js ''Anonymous Agent'') 90,
                              entry_on_new_year (js ''Alex'') 90,
                              entry_on_new_year (js ''Alex'') 50,
                              entry_on_new_year (js ''Alex'') 30]))"
proof -
  have l0: "fst (getLeaderboard halves (localStorage mounted)) = JArray []"
    by (simp add: getLeaderboard_def getLeaderboard_try_def localStorage_getItem_def mounted_def)
  have l1: "fst (getLeaderboard halves after_50) = JArray [entry_on_new_year (js ''Alex'') 50]"
    unfolding after_50 board_50_def [symmetric]
    by (simp add: getLeaderboard_holding [OF JSON_parse_examples(1) json_text_nonempty(1)])
  have l2: "fst (getLeaderboard halves after_50_90) =
      JArray [entry_on_new_year (js ''Anonymous Agent'') 90, entry_on_new_year (js ''Alex'') 50]"
    unfolding after_50_90 board_90_50_def [symmetric]
    by (simp add: getLeaderboard_holding [OF JSON_parse_examples(2) json_text_nonempty(2)])
  have l3: "fst (getLeaderboard halves after_50_90_30) =
      JArray [entry_on_new_year (js ''Anonymous Agent'') 90, entry_on_new_year (js ''Alex'') 50,
              entry_on_new_year (js ''Alex'') 30]"
    unfolding after_50_90_30 board_90_50_30_def [symmetric]
    by (simp add: getLeaderboard_holding [OF JSON_parse_examples(3) json_text_nonempty(3)])
  have w: "\<not> setItem_throws after_50_90_30" by (simp add: after_50_90_30)
  have 1: "fst (saveScoreToLeaderboard halves (js '' Alex '') 50 (localStorage mounted)) =
     Inr (JArray [entry_on_new_year (js ''Alex'') 50])"
    using C7_save_score [OF l0 scored_boards(1), of "js '' Alex ''" 50]
    by (simp add: Let_def trim_Alex entry_on_new_year_halves)
  have 2: "fst (saveScoreToLeaderboard halves (js ''  '') 90 after_50) =
     Inr (JArray [entry_on_new_year (js ''Anonymous Agent'') 90,
                  entry_on_new_year (js ''Alex'') 50])"
    using C7_save_score [OF l1 scored_boards(2), of "js ''  ''" 90]
    by (simp add: Let_def trim_Alex entry_on_new_year_halves score_of_entry_on_new_year)
  have 3: "fst (saveScoreToLeaderboard halves (js ''Alex'') 30 after_50_90) =
     Inr (JArray [entry_on_new_year (js ''Anonymous Agent'') 90,
                  entry_on_new_year (js ''Alex'') 50,
                  entry_on_new_year (js ''Alex'') 30])"
    using C7_save_score [OF l2 scored_boards(3), of "js ''Alex''" 30]
    by (simp add: Let_def trim_Alex entry_on_new_year_halves score_of_entry_on_new_year)
  from C7_save_score [OF l3 scored_boards(4), of "js ''Alex''" 90]
  have 4: "fst (saveScoreToLeaderboard halves (js ''Alex'') 90 after_50_90_30) =
     Inr (JArray [entry_on_new_year (js ''Anonymous Agent'') 90,
                  entry_on_new_year (js ''Alex'') 90,
                  entry_on_new_year (js ''Alex'') 50,
                  entry_on_new_year (js ''Alex'') 30])"
    and 5: "fst (snd (saveScoreToLeaderboard halves (js ''Alex'') 90 after_50_90_30)) =
      after_50_90_30\<lparr>items := (items after_50_90_30)(STORAGE_KEY \<mapsto>
        JSON_stringify halves
          (JArray [entry_on_new_year (js ''Anonymous Agent'') 90,
                   entry_on_new_year (js ''Alex'') 90,
                   entry_on_new_year (js ''Alex'') 50,
                   entry_on_new_year (js ''Alex'') 30]))\<rparr>"
    using w by (simp_all add: Let_def trim_Alex entry_on_new_year_halves score_of_entry_on_new_year)
  have 6: "JSON_stringify halves = json_text" by (simp add: halves_def)
  from 1 2 3 4 show ?thesis unfolding 5 6 by simp
qed

text \<open>
  On a storage that holds the JSON text \<open>{}\<close> the value loaded is an object, and the call
  raises \<open>TypeError\<close>: it returns no list and stores none.
\<close>

theorem C7_storage_holding_an_object:
  "getLeaderboard halves holding_object = (JObject [], [])
   \<and> saveScoreToLeaderboard halves (js ''Alex'') 30 holding_object =
       (Inl TypeError, holding_object, [])"
proof -
  have g: "getLeaderboard halves holding_object = (JObject [], [])"
    unfolding holding_object_def
    by (rule getLeaderboard_holding [OF JSON_parse_examples(9) json_text_nonempty(9)])
  then have "spread (fst (getLeaderboard halves holding_object)) = Inl TypeError"
    by (simp add: spread_def)
  from saveScoreToLeaderboard_not_iterable [OF this, of "js ''Alex''" 30] g
  show ?thesis by simp
qed




section \<open>The analysis\<close>

lemma analysis_of_analysis_object: "analysis_of (analysis_object a) = Some a"
  by (simp add: analysis_of_def analysis_object_def js_def)

text \<open>
  C9. \<open>getGameOverCommentary\<close> resolves for every score, length and outcome of the
  generative call, and never rejects. When the body of its \<open>try\<close> raises, it resolves
  to the fixed pair with grade \<open>?\<close> and writes the error to the console: that is when the
  call is rejected, when the response has no text or an empty one, and when the text is
  not JSON. A text that is JSON is returned as parsed. So the value resolved to is a
  \<open>{commentary, grade}\<close> pair unless the text of the response is JSON for something else.
\<close>

theorem C9_analysis_never_fails:
  "(\<exists>v. fst (getGameOverCommentary env sc len) = Resolved v
        \<and> (analysis_of v = None \<longrightarrow>
             (\<exists>r t. generateContent env sc len = Resolved r \<and> response_text r = Some t
                    \<and> t \<noteq> [] \<and> JSON_parse env t = Inr v)))
   \<and> (getGameOverCommentary_try env sc len = Inl e \<longrightarrow>
        getGameOverCommentary env sc len =
          (Resolved (analysis_object fallback), [(js ''Gemini API Error:'', e)]))
   \<and> (generateContent env sc len = Rejected e \<longrightarrow>
        fst (getGameOverCommentary env sc len) = Resolved (analysis_object fallback))
   \<and> (generateContent env sc len = Resolved r
        \<and> (response_text r = None \<or> response_text r = Some []) \<longrightarrow>
        fst (getGameOverCommentary env sc len) = Resolved (analysis_object fallback))
   \<and> (generateContent env sc len = Resolved r \<and> response_text r = Some t
        \<and> JSON_parse env t = Inl e \<longrightarrow>
        fst (getGameOverCommentary env sc len) = Resolved (analysis_object fallback))
   \<and> (generateContent env sc len = Resolved r \<and> response_text r = Some t \<and> t \<noteq> []
        \<and> JSON_parse env t = Inr v \<longrightarrow>
        getGameOverCommentary env sc len = (Resolved v, []))
   \<and> analysis_of (analysis_object fallback) = Some fallback
   \<and> grade fallback = js ''?''"
proof -
  have 1: "\<exists>v. fst (getGameOverCommentary env sc len) = Resolved v
        \<and> (analysis_of v = None \<longrightarrow>
             (\<exists>r t. generateContent env sc len = Resolved r \<and> response_text r = Some t
                    \<and> t \<noteq> [] \<and> JSON_parse env t = Inr v))"
  proof (cases "getGameOverCommentary_try env sc len")
    case (Inl e)
    then have "fst (getGameOverCommentary env sc len) = Resolved (analysis_object fallback)"
      by (simp add: getGameOverCommentary_def)
    then show ?thesis by (simp add: analysis_of_analysis_object)
  next
    case (Inr v)
    then have "fst (getGameOverCommentary env sc len) = Resolved v"
      by (simp add: getGameOverCommentary_def)
    moreover have "\<exists>r t. generateContent env sc len = Resolved r \<and> response_text r = Some t
                    \<and> t \<noteq> [] \<and> JSON_parse env t = Inr v"
      using Inr
      by (auto simp: getGameOverCommentary_try_def
               split: settled.splits option.splits if_splits)
    ultimately show ?thesis by blast
  qed
  have 2: "getGameOverCommentary_try env sc len = Inl e \<longrightarrow>
        getGameOverCommentary env sc len =
          (Resolved (analysis_object fallback), [(js ''Gemini API Error:'', e)])"
    by (simp add: getGameOverCommentary_def)
  have 3: "generateContent env sc len = Rejected e \<longrightarrow>
        fst (getGameOverCommentary env sc len) = Resolved (analysis_object fallback)"
    by (simp add: getGameOverCommentary_def getGameOverCommentary_try_def)
  have 4: "generateContent env sc len = Resolved r
        \<and> (response_text r = None \<or> response_text r = Some []) \<longrightarrow>
        fst (getGameOverCommentary env sc len) = Resolved (analysis_object fallback)"
    by (auto simp: getGameOverCommentary_def getGameOverCommentary_try_def)
  have 5: "generateContent env sc len = Resolved r \<and> response_text r = Some t
        \<and> JSON_parse env t = Inl e \<longrightarrow>
        fst (getGameOverCommentary env sc len) = Resolved (analysis_object fallback)"
    by (simp add: getGameOverCommentary_def getGameOverCommentary_try_def)
  have 6: "generateContent env sc len = Resolved r \<and> response_text r = Some t \<and> t \<noteq> []
        \<and> JSON_parse env t = Inr v \<longrightarrow>
        getGameOverCommentary env sc len = (Resolved v, [])"
    by (simp add: getGameOverCommentary_def getGameOverCommentary_try_def)
  have 7: "analysis_of (analysis_object fallback) = Some fallback"
    by (rule analysis_of_analysis_object)
  have 8: "grade fallback = js ''?''" by (simp add: fallback_def)
  from 1 2 3 4 5 6 7 8 show ?thesis by (intro conjI)
qed

text \<open>
  A call that is rejected, a response without text, a response cut off after twelve code
  units, and a response that is the JSON text of an analysis.
\<close>

theorem C9_four_outcomes:
  "fst (getGameOverCommentary halves 30 6) = Resolved (analysis_object fallback)
   \<and> fst (getGameOverCommentary silent 30 6) = Resolved (analysis_object fallback)
   \<and> fst (getGameOverCommentary garbled 30 6) = Resolved (analysis_object fallback)
   \<and> getGameOverCommentary answering 30 6 =
       (Resolved (analysis_object \<lparr>commentary = js ''Hiss.'', grade = js ''B''\<rparr>), [])
   \<and> analysis_of (analysis_object fallback) =
       Some \<lparr>commentary = js ''The Snake Deity is silent... (API Error)'', grade = js ''?''\<rparr>"
proof -
  have "generateContent halves 30 6 = Rejected (Error (js ''offline''))"
    by (simp add: halves_def)
  with C9_analysis_never_fails [of halves 30 6]
  have 1: "fst (getGameOverCommentary halves 30 6) = Resolved (analysis_object fallback)"
    by blast
  have "generateContent silent 30 6 = Resolved \<lparr>response_text = None\<rparr>"
    "response_text \<lparr>response_text = None\<rparr> = None"
    by (simp_all add: silent_def halves_def)
  with C9_analysis_never_fails [of silent 30 6]
  have 2: "fst (getGameOverCommentary silent 30 6) = Resolved (analysis_object fallback)"
    by blast
  define cut where "cut = take 12 (json_text hiss)"
  have "generateContent garbled 30 6 = Resolved \<lparr>response_text = Some cut\<rparr>"
    "response_text \<lparr>response_text = Some cut\<rparr> = Some cut"
    "JSON_parse garbled cut = Inl SyntaxError"
    by (simp_all add: garbled_def halves_def cut_def JSON_parse_examples(7))
  with C9_analysis_never_fails [of garbled 30 6]
  have 3: "fst (getGameOverCommentary garbled 30 6) = Resolved (analysis_object fallback)"
    by blast
  define t where "t = json_text hiss"
  have "generateContent answering 30 6 = Resolved \<lparr>response_text = Some t\<rparr>"
    "response_text \<lparr>response_text = Some t\<rparr> = Some t" "t \<noteq> []"
    "JSON_parse answering t = Inr hiss"
    by (simp_all add: answering_def halves_def t_def JSON_parse_examples(4) json_text_nonempty(4))
  with C9_analysis_never_fails [of answering 30 6]
  have "getGameOverCommentary answering 30 6 = (Resolved hiss, [])"
    by blast
  then have 4: "getGameOverCommentary answering 30 6 =
       (Resolved (analysis_object \<lparr>commentary = js ''Hiss.'', grade = js ''B''\<rparr>), [])"
    by (simp add: hiss_def)
  have 5: "analysis_of (analysis_object fallback) =
       Some \<lparr>commentary = js ''The Snake Deity is silent... (API Error)'', grade = js ''?''\<rparr>"
    using C9_analysis_never_fails [of halves 30 6] by (simp add: fallback_def)
  from 1 2 3 4 5 show ?thesis by blast
qed

text \<open>
  A response whose text is JSON for an object with a grade and no commentary is
  resolved to as it is: neither a \<open>{commentary, grade}\<close> pair nor the fallback, and with
  nothing written to the console.
\<close>

theorem C9_answer_without_commentary:
  "getGameOverCommentary half_answering 30 6 =
     (Resolved (JObject [(js ''grade'', JString (js ''A''))]), [])
   \<and> analysis_of (JObject [(js ''grade'', JString (js ''A''))]) = None
   \<and> JObject [(js ''grade'', JString (js ''A''))] \<noteq> analysis_object fallback"
proof -
  have "getGameOverCommentary_try half_answering 30 6 = Inr grade_only"
    by (simp add: getGameOverCommentary_try_def half_answering_def halves_def
        JSON_parse_examples(5) json_text_nonempty(5))
  then have "getGameOverCommentary half_answering 30 6 = (Resolved grade_only, [])"
    by (simp add: getGameOverCommentary_def)
  then show ?thesis
    by (simp add: grade_only_def analysis_of_def analysis_object_def js_def)
qed

section \<open>Keys and directions\<close>


lemma key_direction_unit: "key_direction key = Some d \<Longrightarrow> unit_direction d"
  by (auto simp: key_direction_def unit_direction_def split: if_splits)

lemma handleKeyDown_key_direction:
  assumes "status s = PLAYING" "\<not> pause_key key"
  shows "handleKeyDown key s =
     (case key_direction key of
        None \<Rightarrow> s
      | Some d \<Rightarrow>
          if (if x d = 0 then y (directionRef s) \<noteq> - y d else x (directionRef s) \<noteq> - x d)
          then s\<lparr>nextDirectionRef := d\<rparr> else s)"
proof -
  define P where "P \<longleftrightarrow> key = js ''p'' \<or> key = js ''P'' \<or> key = js ''Escape''"
  define U where "U \<longleftrightarrow> key = js ''ArrowUp'' \<or> key = js ''w'' \<or> key = js ''W''"
  define D where "D \<longleftrightarrow> key = js ''ArrowDown'' \<or> key = js ''s'' \<or> key = js ''S''"
  define L where "L \<longleftrightarrow> key = js ''ArrowLeft'' \<or> key = js ''a'' \<or> key = js ''A''"
  define R where "R \<longleftrightarrow> key = js ''ArrowRight'' \<or> key = js ''d'' \<or> key = js ''D''"
  have np: "\<not> P" using assms(2) by (simp add: P_def pause_key_def)
  have kd: "key_direction key =
     (if U then Some \<lparr>x = 0, y = -1\<rparr> else if D then Some \<lparr>x = 0, y = 1\<rparr>
      else if L then Some \<lparr>x = -1, y = 0\<rparr> else if R then Some \<lparr>x = 1, y = 0\<rparr> else None)"
    unfolding key_direction_def U_def D_def L_def R_def ..
  have "handleKeyDown key s =
     (if P then togglePause s
      else if status s \<noteq> PLAYING then s
      else
        if U then (if y (directionRef s) \<noteq> 1 then s\<lparr>nextDirectionRef := \<lparr>x = 0, y = -1\<rparr>\<rparr> else s)
        else if D then (if y (directionRef s) \<noteq> -1 then s\<lparr>nextDirectionRef := \<lparr>x = 0, y = 1\<rparr>\<rparr> else s)
        else if L then (if x (directionRef s) \<noteq> 1 then s\<lparr>nextDirectionRef := \<lparr>x = -1, y = 0\<rparr>\<rparr> else s)
        else if R then (if x (directionRef s) \<noteq> -1 then s\<lparr>nextDirectionRef := \<lparr>x = 1, y = 0\<rparr>\<rparr> else s)
        else s)"
    unfolding handleKeyDown_def Let_def P_def U_def D_def L_def R_def ..
  with np assms(1) show ?thesis unfolding kd by simp
qed










section \<open>Starting a game\<close>

text \<open>
  A blank name is refused with a prompt and nothing else changes. With a name, a storage
  that takes the write and a random source that draws a cell off the initial snake, the
  game is reset. With a name and a storage whose write raises, the exception leaves
  \<open>startGame\<close> before any update: nothing in \<open>startGame\<close> catches it, unlike the write
  in \<open>saveScoreToLeaderboard\<close>.
\<close>

lemma startGame_blank:
  assumes "\<forall>c\<in>set (playerName s). isWhiteSpace c"
  shows "startGame env s =
     Some (Returns (s\<lparr>alerts := alerts s @ [js ''Please identify yourself, Agent.'']\<rparr>))"
  using assms by (simp add: startGame_def trim_empty_iff)

lemma startGame_storage_raises:
  assumes "\<not> (\<forall>c\<in>set (playerName s). isWhiteSpace c)" "setItem_throws (localStorage s)"
  shows "startGame env s = Some (Throws DOMException s)"
  using assms by (simp add: startGame_def trim_empty_iff localStorage_setItem_def)

lemma startGame_resets:
  assumes "\<not> (\<forall>c\<in>set (playerName s). isWhiteSpace c)" "\<not> setItem_throws (localStorage s)"
    and "\<exists>k. drawn (Math_random env) (randomCalls s + 2 * k) \<notin> set INITIAL_SNAKE"
  shows "\<exists>s'. startGame env s = Some (Returns s')
     \<and> snake s' = [\<lparr>x = 7, y = 7\<rparr>, \<lparr>x = 7, y = 8\<rparr>, \<lparr>x = 7, y = 9\<rparr>]
     \<and> direction s' = \<lparr>x = 0, y = -1\<rparr> \<and> directionRef s' = \<lparr>x = 0, y = -1\<rparr>
     \<and> nextDirectionRef s' = \<lparr>x = 0, y = -1\<rparr>
     \<and> App.score s' = 0 \<and> status s' = PLAYING \<and> food s' \<notin> set (snake s')
     \<and> geminiData s' = None"
proof -
  from getRandomPosition_returns [OF assms(3)] obtain p m where
    "getRandomPosition (Math_random env) INITIAL_SNAKE (randomCalls s) = Some (p, m)"
    "p \<notin> set INITIAL_SNAKE" by blast
  moreover have "trim (playerName s) \<noteq> []" using assms(1) trim_empty_iff [of "playerName s"] by blast
  ultimately show ?thesis using assms(2)
    by (simp add: startGame_def localStorage_setItem_def INITIAL_SNAKE_def INITIAL_DIRECTION_def)
qed

lemma Alex_not_blank: "\<not> (\<forall>c\<in>set (js ''Alex''). isWhiteSpace c)"
  by (simp add: js_def isWhiteSpace_def)

text \<open>
  C5 says that every start with a name resets the game. At the name Alex on a storage
  that accepts no write, \<open>startGame\<close> leaves by the exception of \<open>setItem\<close> and the state
  stays as it was, in IDLE; on a storage that works the same start resets the game.
\<close>

theorem C5_start_on_full_storage:
  "playerName alex_idle_full_storage = js ''Alex''
   \<and> startGame halves_then_tenths alex_idle_full_storage =
       Some (Throws DOMException alex_idle_full_storage)
   \<and> status alex_idle_full_storage = IDLE
   \<and> (\<exists>s'. startGame halves_then_tenths alex_idle = Some (Returns s') \<and> status s' = PLAYING
         \<and> snake s' = [\<lparr>x = 7, y = 7\<rparr>, \<lparr>x = 7, y = 8\<rparr>, \<lparr>x = 7, y = 9\<rparr>]
         \<and> food s' = \<lparr>x = 1, y = 1\<rparr>)"
proof -
  have n: "playerName alex_idle_full_storage = js ''Alex''" "playerName alex_idle = js ''Alex''"
    "status alex_idle_full_storage = IDLE"
    by (simp_all add: alex_idle_full_storage_def alex_idle_def mounted_def)
  have "startGame halves_then_tenths alex_idle_full_storage =
       Some (Throws DOMException alex_idle_full_storage)"
    by (rule startGame_storage_raises)
       (simp_all add: n Alex_not_blank, simp add: alex_idle_full_storage_def)
  moreover have "getRandomPosition (Math_random halves_then_tenths) INITIAL_SNAKE 0 =
      Some (\<lparr>x = 1, y = 1\<rparr>, 4)"
    using getRandomPosition_first_free [of "Math_random halves_then_tenths" 0 1 INITIAL_SNAKE]
    by (simp add: halves_then_tenths_draws INITIAL_SNAKE_def)
  then have "\<exists>s'. startGame halves_then_tenths alex_idle = Some (Returns s') \<and> status s' = PLAYING
         \<and> snake s' = [\<lparr>x = 7, y = 7\<rparr>, \<lparr>x = 7, y = 8\<rparr>, \<lparr>x = 7, y = 9\<rparr>]
         \<and> food s' = \<lparr>x = 1, y = 1\<rparr>"
    by (simp add: startGame_def trim_empty_iff n Alex_not_blank localStorage_setItem_def)
       (simp add: alex_idle_def mounted_def INITIAL_SNAKE_def)
  ultimately show ?thesis using n by blast
qed

section \<open>What every reachable state satisfies\<close>

lemma coherent_mounted: "coherent mounted"
  by (simp add: coherent_def mounted_def INITIAL_DIRECTION_def INITIAL_SNAKE_def unit_direction_def)

lemma coherent_togglePause: "coherent s \<Longrightarrow> coherent (togglePause s)"
  by (simp add: coherent_def togglePause_def)

lemma coherent_handleKeyDown:
  assumes "coherent s"
  shows "coherent (handleKeyDown key s)"
proof (cases "pause_key key")
  case True
  then have "handleKeyDown key s = togglePause s" by (simp add: handleKeyDown_def pause_key_def)
  with assms show ?thesis by (simp add: coherent_togglePause)
next
  case False
  show ?thesis
  proof (cases "status s = PLAYING")
    case True
    show ?thesis
      using handleKeyDown_key_direction [OF True False] assms
      by (auto simp: coherent_def split: option.splits dest: key_direction_unit)
  next
    case notp: False
    with False have "handleKeyDown key s = s" by (simp add: handleKeyDown_def pause_key_def)
    with assms show ?thesis by simp
  qed
qed

lemma coherent_moveSnake:
  assumes "coherent s" "moveSnake env s = Some r"
  shows "coherent (final r)"
proof (cases "status s = PLAYING")
  case True
  from moveSnake_applies_buffer [OF True assms(2)] moveSnake_length [OF assms(2)] assms(1)
  show ?thesis by (auto simp: coherent_def)
next
  case False
  with assms(2) have "r = Returns s" by (simp add: moveSnake_idle)
  with assms(1) show ?thesis by simp
qed

lemma coherent_startGame:
  assumes "coherent s" "startGame env s = Some r"
  shows "coherent (final r)"
  using assms
  by (auto simp: startGame_def coherent_def INITIAL_DIRECTION_def INITIAL_SNAKE_def
        unit_direction_def split: if_splits sum.splits option.splits)

section \<open>The tick interval\<close>

lemma floor_div_50: "\<lfloor>real_of_int sc / 50\<rfloor> = sc div 50"
  using floor_divide_of_int_eq [of sc 50, where ?'a = real] by simp

text \<open>
  C6. For every score the tick interval is \<open>max(50, 150 - floor(score/50) * 5)\<close>
  milliseconds: 150 at score 0, 125 at score 250, and the floor of 50 at score 2000.
\<close>

theorem C6_tick_interval:
  "speed sc = max 50 (150 - \<lfloor>real_of_int sc / 50\<rfloor> * 5)
   \<and> speed sc = max 50 (150 - (sc div 50) * 5)
   \<and> speed 0 = 150 \<and> speed 250 = 125 \<and> speed 2000 = 50"
  by (simp add: speed_def BASE_SPEED_def floor_div_50)

end
